theory Spec2Isabelle
  imports Complex_Main
begin

section \<open>Numbers of the host language\<close>

text \<open>
  The library computes with the host language's numbers.  A finite number is modelled
  by the real it denotes (rounding is not modelled, and the two zeros are identified);
  the two infinities, the not-a-number value and the value \<open>undefined\<close> (what reading
  past the end of an array or an omitted optional argument yields) are kept apart,
  because division, \<open>Math.sqrt\<close>, \<open>Math.pow\<close>, \<open>Math.max\<close> and \<open>Math.min\<close> produce or
  propagate them where the reals of HOL would return an arbitrary finite value.
\<close>

datatype jsval = Num real | PosInf | NegInf | NaN | Undefined

text \<open>Dereferencing \<open>undefined\<close> (or \<open>null\<close>) raises; it is the only error of the library.\<close>

datatype error = TypeError

text \<open>Arithmetic first converts its operands to numbers: \<open>undefined\<close> becomes NaN.\<close>

fun to_number :: "jsval \<Rightarrow> jsval" where
  "to_number Undefined = NaN"
| "to_number v = v"

fun is_nan :: "jsval \<Rightarrow> bool" where
  "is_nan v = (to_number v = NaN)"

text \<open>The sign of a number that is not NaN; a zero counts as non-negative.\<close>

fun is_negative :: "jsval \<Rightarrow> bool" where
  "is_negative (Num x) = (x < 0)"
| "is_negative NegInf = True"
| "is_negative v = False"

fun js_neg :: "jsval \<Rightarrow> jsval" where
  "js_neg (Num x) = Num (- x)"
| "js_neg PosInf = NegInf"
| "js_neg NegInf = PosInf"
| "js_neg v = NaN"

fun js_add :: "jsval \<Rightarrow> jsval \<Rightarrow> jsval" where
  "js_add (Num x) (Num y) = Num (x + y)"
| "js_add (Num x) PosInf = PosInf"
| "js_add (Num x) NegInf = NegInf"
| "js_add PosInf (Num y) = PosInf"
| "js_add NegInf (Num y) = NegInf"
| "js_add PosInf PosInf = PosInf"
| "js_add NegInf NegInf = NegInf"
| "js_add a b = NaN"

definition js_sub :: "jsval \<Rightarrow> jsval \<Rightarrow> jsval" where
  "js_sub a b = js_add a (js_neg b)"

definition js_mul :: "jsval \<Rightarrow> jsval \<Rightarrow> jsval" where
  "js_mul a b =
     (if is_nan a \<or> is_nan b then NaN
      else case (a, b) of
        (Num x, Num y) \<Rightarrow> Num (x * y)
      | _ \<Rightarrow> if a = Num 0 \<or> b = Num 0 then NaN
             else if is_negative a = is_negative b then PosInf else NegInf)"

definition js_div :: "jsval \<Rightarrow> jsval \<Rightarrow> jsval" where
  "js_div a b =
     (if is_nan a \<or> is_nan b then NaN
      else case (a, b) of
        (Num x, Num y) \<Rightarrow>
          if y \<noteq> 0 then Num (x / y)
          else if x = 0 then NaN
          else if x < 0 then NegInf else PosInf
      | (Num x, _) \<Rightarrow> Num 0
      | (_, Num y) \<Rightarrow> if is_negative a = is_negative b then PosInf else NegInf
      | _ \<Rightarrow> NaN)"

fun js_sqrt :: "jsval \<Rightarrow> jsval" where
  "js_sqrt (Num x) = (if x < 0 then NaN else Num (sqrt x))"
| "js_sqrt PosInf = PosInf"
| "js_sqrt v = NaN"

text \<open>\<open>a < b\<close> on numbers; false as soon as one side is NaN.\<close>

fun js_lt :: "jsval \<Rightarrow> jsval \<Rightarrow> bool" where
  "js_lt (Num x) (Num y) = (x < y)"
| "js_lt (Num x) PosInf = True"
| "js_lt NegInf (Num y) = True"
| "js_lt NegInf PosInf = True"
| "js_lt a b = False"

definition js_max :: "jsval \<Rightarrow> jsval \<Rightarrow> jsval" where
  "js_max a b =
     (if is_nan a \<or> is_nan b then NaN else if js_lt a b then b else a)"

definition js_min :: "jsval \<Rightarrow> jsval \<Rightarrow> jsval" where
  "js_min a b =
     (if is_nan a \<or> is_nan b then NaN else if js_lt b a then b else a)"

fun js_floor :: "jsval \<Rightarrow> jsval" where
  "js_floor (Num x) = Num (of_int \<lfloor>x\<rfloor>)"
| "js_floor v = to_number v"

text \<open>The remainder operator \<open>%\<close>: the result has the sign of the dividend.\<close>

definition js_mod :: "jsval \<Rightarrow> jsval \<Rightarrow> jsval" where
  "js_mod a b =
     (case (to_number a, to_number b) of
        (Num x, Num y) \<Rightarrow>
          if y = 0 then NaN
          else Num (x - y * of_int (if 0 \<le> x / y then \<lfloor>x / y\<rfloor> else \<lceil>x / y\<rceil>))
      | (Num x, PosInf) \<Rightarrow> Num x
      | (Num x, NegInf) \<Rightarrow> Num x
      | _ \<Rightarrow> NaN)"

text \<open>\<open>Math.pow(v, 1.5)\<close> for a finite base \<open>v\<close>: NaN below zero.\<close>

definition math_pow_1_5 :: "real \<Rightarrow> jsval" where
  "math_pow_1_5 v = (if v < 0 then NaN else Num (v powr (3 / 2)))"

section \<open>Loops that collect a row\<close>

text \<open>
  Every loop of the library runs an index from 0 up to a bound and pushes one value per
  round.  \<open>traverse\<close> is such a loop whose body only reads the state and may raise;
  \<open>repeatM\<close> is one whose body also advances the state (it draws from the generator).
  The first error ends the loop, as the exception would.
\<close>

fun traverse :: "('a \<Rightarrow> error + 'b) \<Rightarrow> 'a list \<Rightarrow> error + 'b list" where
  "traverse f [] = Inr []"
| "traverse f (a # as) =
     (case f a of
        Inl e \<Rightarrow> Inl e
      | Inr b \<Rightarrow> (case traverse f as of Inl e \<Rightarrow> Inl e | Inr bs \<Rightarrow> Inr (b # bs)))"

fun repeatM :: "nat \<Rightarrow> ('s \<Rightarrow> error + ('a \<times> 's)) \<Rightarrow> 's \<Rightarrow> error + ('a list \<times> 's)" where
  "repeatM 0 f s = Inr ([], s)"
| "repeatM (Suc n) f s =
     (case f s of
        Inl e \<Rightarrow> Inl e
      | Inr (a, s') \<Rightarrow>
          (case repeatM n f s' of Inl e \<Rightarrow> Inl e | Inr (as, s'') \<Rightarrow> Inr (a # as, s'')))"

section \<open>The state of the Noise namespace\<close>

text \<open>
  \<open>FastRandomBlocks\<close> belongs to another package: the generator is a parameter, given by
  its constructor from a seed and by \<open>nextNumber\<close>, which returns the draw and the
  advanced generator.  \<open>Random.createRNG(seed)\<close> is taken to be that constructor.
\<close>

record 'r rng_ops =
  new_rng :: "int \<Rightarrow> 'r"
  nextNumber :: "'r \<Rightarrow> real \<times> 'r"

record vec2 =
  vec_x :: real
  vec_y :: real

text \<open>
  The three variables of the namespace.  Widths, heights, layer counts and node counts
  are whole numbers; \<open>currentRng\<close> is \<open>None\<close> when the variable holds no object.
\<close>

record 'r noise_state =
  nodes :: nat
  gradients :: "vec2 list list"
  currentRng :: "'r option"

type_synonym field = "jsval list list"

text \<open>The enumerations are numbers at run time; a caller can pass any number.\<close>

definition Perlin :: int where "Perlin = 0"
definition Static :: int where "Static = 1"
definition Ridged :: int where "Ridged = 2"
definition Terrain :: int where "Terrain = 3"
definition River :: int where "River = 4"

definition Gradient :: int where "Gradient = 0"
definition Solid :: int where "Solid = 1"
definition Island :: int where "Island = 2"
definition Edge_falloff :: int where "Edge_falloff = 3"
definition Vertical_gradient :: int where "Vertical_gradient = 4"
definition Horizontal_gradient :: int where "Horizontal_gradient = 5"
definition Checkerboard :: int where "Checkerboard = 6"

definition Combine_Product :: int where "Combine_Product = 0"
definition Combine_Average :: int where "Combine_Average = 1"
definition Combine_Difference :: int where "Combine_Difference = 2"
definition Combine_Union :: int where "Combine_Union = 3"
definition Combine_Intersection :: int where "Combine_Intersection = 4"
definition Combine_Quotient :: int where "Combine_Quotient = 5"

definition setSeed :: "'r noise_state \<Rightarrow> 'r option \<Rightarrow> 'r noise_state" where
  "setSeed s rng = s\<lparr>currentRng := rng\<rparr>"

text \<open>\<open>if (!currentRng) currentRng = new FastRandomBlocks(1234)\<close>\<close>

definition ensure_rng :: "'r rng_ops \<Rightarrow> 'r noise_state \<Rightarrow> 'r noise_state" where
  "ensure_rng R s =
     (case currentRng s of
        None \<Rightarrow> s\<lparr>currentRng := Some (new_rng R 1234)\<rparr>
      | Some r \<Rightarrow> s)"

text \<open>\<open>scale || 4\<close>: an omitted argument and 0 both select the default.\<close>

definition or_default :: "nat option \<Rightarrow> nat \<Rightarrow> nat" where
  "or_default v d = (case v of None \<Rightarrow> d | Some n \<Rightarrow> if n = 0 then d else n)"

definition or_default_real :: "real option \<Rightarrow> real \<Rightarrow> real" where
  "or_default_real v d = (case v of None \<Rightarrow> d | Some p \<Rightarrow> if p = 0 then d else p)"

section \<open>Gradient grid and coherent noise\<close>

definition seeded_random :: "'r rng_ops \<Rightarrow> 'r noise_state \<Rightarrow> error + (real \<times> 'r noise_state)" where
  "seeded_random R s =
     (case currentRng s of
        None \<Rightarrow> Inl TypeError
      | Some r \<Rightarrow>
          (case nextNumber R r of
             (n, r') \<Rightarrow> Inr (n / 65535, s\<lparr>currentRng := Some r'\<rparr>)))"

definition random_unit_vector :: "'r rng_ops \<Rightarrow> 'r noise_state \<Rightarrow> error + (vec2 \<times> 'r noise_state)" where
  "random_unit_vector R s =
     (case seeded_random R s of
        Inl e \<Rightarrow> Inl e
      | Inr (u, s') \<Rightarrow>
          (let theta = u * 2 * pi
           in Inr (\<lparr>vec_x = cos theta, vec_y = sin theta\<rparr>, s')))"

definition initialize_gradients :: "'r rng_ops \<Rightarrow> 'r noise_state \<Rightarrow> error + 'r noise_state" where
  "initialize_gradients R s =
     (case repeatM (nodes s) (repeatM (nodes s) (random_unit_vector R)) (s\<lparr>gradients := []\<rparr>) of
        Inl e \<Rightarrow> Inl e
      | Inr (rows, s') \<Rightarrow> Inr (s'\<lparr>gradients := rows\<rparr>))"

text \<open>Reading an array at an integer index: \<open>undefined\<close> outside the array.\<close>

definition index :: "'a list \<Rightarrow> int \<Rightarrow> 'a option" where
  "index xs i = (if 0 \<le> i \<and> i < int (length xs) then Some (xs ! nat i) else None)"

definition dot_prod_grid :: "'r noise_state \<Rightarrow> real \<Rightarrow> real \<Rightarrow> int \<Rightarrow> int \<Rightarrow> error + real" where
  "dot_prod_grid s x y vert_x vert_y =
     (case index (gradients s) vert_y of
        None \<Rightarrow> Inl TypeError
      | Some row \<Rightarrow>
          (case index row vert_x of
             None \<Rightarrow> Inl TypeError
           | Some g_vect \<Rightarrow>
               Inr ((x - of_int vert_x) * vec_x g_vect + (y - of_int vert_y) * vec_y g_vect)))"

definition smootherstep :: "real \<Rightarrow> real" where
  "smootherstep x = 6 * x ^ 5 - 15 * x ^ 4 + 10 * x ^ 3"

definition interp :: "real \<Rightarrow> real \<Rightarrow> real \<Rightarrow> real" where
  "interp x a b = a + smootherstep x * (b - a)"

text \<open>
  \<open>perlin_blend\<close> is the body of \<open>perlin_get\<close> up to its last line: the blend
  \<open>interp(sy, ix0, ix1)\<close> of the four corner dot products, evaluated in the source's order.
\<close>

definition perlin_blend :: "'r noise_state \<Rightarrow> real \<Rightarrow> real \<Rightarrow> error + real" where
  "perlin_blend s x y =
     (let x0 = \<lfloor>x\<rfloor>; x1 = x0 + 1; y0 = \<lfloor>y\<rfloor>; y1 = y0 + 1;
          sx = x - of_int x0; sy = y - of_int y0
      in case dot_prod_grid s x y x0 y0 of Inl e \<Rightarrow> Inl e | Inr n0 \<Rightarrow>
         (case dot_prod_grid s x y x1 y0 of Inl e \<Rightarrow> Inl e | Inr n1 \<Rightarrow>
         (let ix0 = interp sx n0 n1
          in case dot_prod_grid s x y x0 y1 of Inl e \<Rightarrow> Inl e | Inr n0' \<Rightarrow>
             (case dot_prod_grid s x y x1 y1 of Inl e \<Rightarrow> Inl e | Inr n1' \<Rightarrow>
             (let ix1 = interp sx n0' n1'
              in Inr (interp sy ix0 ix1))))))"

definition perlin_get :: "'r noise_state \<Rightarrow> real \<Rightarrow> real \<Rightarrow> error + real" where
  "perlin_get s x y =
     (case perlin_blend s x y of Inl e \<Rightarrow> Inl e | Inr b \<Rightarrow> Inr ((b + 1) / 2))"

section \<open>Noise synthesis\<close>

text \<open>
  The coordinate at which the four gradient-based generators sample pixel \<open>i\<close> of an
  axis of \<open>n\<close> pixels: \<open>i / n * (nodes - 1)\<close>.
\<close>

definition sample_coord :: "'r noise_state \<Rightarrow> nat \<Rightarrow> nat \<Rightarrow> real" where
  "sample_coord s i n = real i / real n * (real (nodes s) - 1)"

definition generate_perlin_noise :: "'r noise_state \<Rightarrow> nat \<Rightarrow> nat \<Rightarrow> error + field" where
  "generate_perlin_noise s width height =
     traverse (\<lambda>y. traverse (\<lambda>x.
         case perlin_get s (sample_coord s x width) (sample_coord s y height) of
           Inl e \<Rightarrow> Inl e
         | Inr v \<Rightarrow> Inr (Num v)) [0..<width]) [0..<height]"

definition generate_static_noise ::
  "'r rng_ops \<Rightarrow> 'r noise_state \<Rightarrow> nat \<Rightarrow> nat \<Rightarrow> error + (field \<times> 'r noise_state)" where
  "generate_static_noise R s width height =
     repeatM height (repeatM width (\<lambda>s'.
         case seeded_random R s' of
           Inl e \<Rightarrow> Inl e
         | Inr (randomValue, s'') \<Rightarrow> Inr (Num randomValue, s''))) s"

text \<open>The fold of the ridged generator: \<open>1 - Math.abs(2 * value - 1)\<close>.\<close>

definition ridged_value :: "real \<Rightarrow> real" where
  "ridged_value v = 1 - \<bar>2 * v - 1\<bar>"

definition generate_ridged_noise :: "'r noise_state \<Rightarrow> nat \<Rightarrow> nat \<Rightarrow> error + field" where
  "generate_ridged_noise s width height =
     traverse (\<lambda>y. traverse (\<lambda>x.
         case perlin_get s (sample_coord s x width) (sample_coord s y height) of
           Inl e \<Rightarrow> Inl e
         | Inr v \<Rightarrow> Inr (Num (ridged_value v))) [0..<width]) [0..<height]"

definition generate_terrain_noise :: "'r noise_state \<Rightarrow> nat \<Rightarrow> nat \<Rightarrow> error + field" where
  "generate_terrain_noise s width height =
     traverse (\<lambda>y. traverse (\<lambda>x.
         case perlin_get s (sample_coord s x width) (sample_coord s y height) of
           Inl e \<Rightarrow> Inl e
         | Inr v \<Rightarrow> Inr (math_pow_1_5 v)) [0..<width]) [0..<height]"

text \<open>
  Reading \<open>m[y][x]\<close>: a missing row raises, a missing cell of a row is \<open>undefined\<close>.
\<close>

definition cell :: "jsval list \<Rightarrow> nat \<Rightarrow> jsval" where
  "cell row x = (if x < length row then row ! x else Undefined)"

definition read2 :: "field \<Rightarrow> nat \<Rightarrow> nat \<Rightarrow> error + jsval" where
  "read2 m y x = (if y < length m then Inr (cell (m ! y) x) else Inl TypeError)"

definition generate_river_noise :: "'r noise_state \<Rightarrow> nat \<Rightarrow> nat \<Rightarrow> error + field" where
  "generate_river_noise s width height =
     (case generate_ridged_noise s width height of
        Inl e \<Rightarrow> Inl e
      | Inr ridged \<Rightarrow>
          traverse (\<lambda>y. traverse (\<lambda>x.
              case read2 ridged y x of
                Inl e \<Rightarrow> Inl e
              | Inr r \<Rightarrow> Inr (js_sub (Num 1) r)) [0..<width]) [0..<height])"

text \<open>
  The four gradient-based branches of \<open>createNoiseMap\<close> are the same three statements
  around a different generator: set \<open>nodes\<close>, rebuild the gradients, generate.
\<close>

definition gradient_branch ::
  "'r rng_ops \<Rightarrow> 'r noise_state \<Rightarrow> nat option \<Rightarrow> ('r noise_state \<Rightarrow> error + field)
     \<Rightarrow> error + (field \<times> 'r noise_state)" where
  "gradient_branch R s scale generate =
     (case initialize_gradients R (s\<lparr>nodes := or_default scale 4\<rparr>) of
        Inl e \<Rightarrow> Inl e
      | Inr s' \<Rightarrow> (case generate s' of Inl e \<Rightarrow> Inl e | Inr noise \<Rightarrow> Inr (noise, s')))"

definition createNoiseMap ::
  "'r rng_ops \<Rightarrow> 'r noise_state \<Rightarrow> int \<Rightarrow> nat \<Rightarrow> nat \<Rightarrow> nat option
     \<Rightarrow> error + (field \<times> 'r noise_state)" where
  "createNoiseMap R s noiseType width height scale =
     (let s1 = ensure_rng R s
      in if noiseType = Perlin then
           gradient_branch R s1 scale (\<lambda>s'. generate_perlin_noise s' width height)
         else if noiseType = Static then
           generate_static_noise R s1 width height
         else if noiseType = Ridged then
           gradient_branch R s1 scale (\<lambda>s'. generate_ridged_noise s' width height)
         else if noiseType = Terrain then
           gradient_branch R s1 scale (\<lambda>s'. generate_terrain_noise s' width height)
         else if noiseType = River then
           gradient_branch R s1 scale (\<lambda>s'. generate_river_noise s' width height)
         else Inr ([], s1))"

text \<open>
  One round of the layer loop of \<open>createLayeredNoiseMap\<close>: the accumulated map, the
  amplitude and the total amplitude travel with the state.
\<close>

definition layer_step ::
  "'r rng_ops \<Rightarrow> nat \<Rightarrow> nat \<Rightarrow> real \<Rightarrow> nat
     \<Rightarrow> 'r noise_state \<times> real list list \<times> real \<times> real
     \<Rightarrow> error + ('r noise_state \<times> real list list \<times> real \<times> real)" where
  "layer_step R width height persistenceValue i acc =
     (case acc of (s, noiseMap, amplitude, totalAmplitude) \<Rightarrow>
        (case initialize_gradients R s of
           Inl e \<Rightarrow> Inl e
         | Inr s' \<Rightarrow>
             (let frequency = (2::real) ^ i;
                  layerNodes = real (nodes s') * frequency
              in case traverse (\<lambda>y. traverse (\<lambda>x.
                        perlin_get s' (real x / real width * layerNodes)
                                      (real y / real height * layerNodes))
                      [0..<width]) [0..<height] of
                   Inl e \<Rightarrow> Inl e
                 | Inr layer \<Rightarrow>
                     Inr (s',
                          map2 (map2 (\<lambda>old noiseValue. old + noiseValue * amplitude)) noiseMap layer,
                          amplitude * persistenceValue,
                          totalAmplitude + amplitude))))"

fun layer_loop ::
  "'r rng_ops \<Rightarrow> nat \<Rightarrow> nat \<Rightarrow> real \<Rightarrow> nat list
     \<Rightarrow> 'r noise_state \<times> real list list \<times> real \<times> real
     \<Rightarrow> error + ('r noise_state \<times> real list list \<times> real \<times> real)" where
  "layer_loop R width height p [] acc = Inr acc"
| "layer_loop R width height p (i # is) acc =
     (case layer_step R width height p i acc of
        Inl e \<Rightarrow> Inl e
      | Inr acc' \<Rightarrow> layer_loop R width height p is acc')"

definition createLayeredNoiseMap ::
  "'r rng_ops \<Rightarrow> 'r noise_state \<Rightarrow> nat \<Rightarrow> nat \<Rightarrow> nat \<Rightarrow> nat option \<Rightarrow> real option
     \<Rightarrow> error + (field \<times> 'r noise_state)" where
  "createLayeredNoiseMap R s width height layers scale persistence =
     (let s1 = (ensure_rng R s)\<lparr>nodes := or_default scale 4\<rparr>;
          persistenceValue = or_default_real persistence (1 / 2);
          zeros = replicate height (replicate width 0)
      in case layer_loop R width height persistenceValue [0..<layers] (s1, zeros, 1, 0) of
           Inl e \<Rightarrow> Inl e
         | Inr (s', noiseMap, amplitude, totalAmplitude) \<Rightarrow>
             Inr (map (map (\<lambda>v. js_div (Num v) (Num totalAmplitude))) noiseMap, s'))"

section \<open>Masks\<close>

definition generate_gradient_mask :: "nat \<Rightarrow> nat \<Rightarrow> field" where
  "generate_gradient_mask width height =
     (let cx = real width / 2; cy = real height / 2;
          maxDist = sqrt (cx * cx + cy * cy)
      in map (\<lambda>y. map (\<lambda>x.
           let dx = real x - cx; dy = real y - cy;
               dist = sqrt (dx * dx + dy * dy);
               value = js_sub (Num 1) (js_div (Num dist) (Num maxDist));
               value1 = (if js_lt value (Num 0) then Num 0 else value)
           in if js_lt (Num 1) value1 then Num 1 else value1) [0..<width]) [0..<height])"

definition generate_solid_mask :: "nat \<Rightarrow> nat \<Rightarrow> jsval \<Rightarrow> field" where
  "generate_solid_mask width height v = map (\<lambda>y. map (\<lambda>x. v) [0..<width]) [0..<height]"

definition generate_vertical_gradient :: "nat \<Rightarrow> nat \<Rightarrow> field" where
  "generate_vertical_gradient width height =
     map (\<lambda>y. let value = js_div (Num (real y)) (Num (real height - 1))
              in map (\<lambda>x. value) [0..<width]) [0..<height]"

definition generate_horizontal_gradient :: "nat \<Rightarrow> nat \<Rightarrow> field" where
  "generate_horizontal_gradient width height =
     map (\<lambda>y. map (\<lambda>x. js_div (Num (real x)) (Num (real width - 1))) [0..<width]) [0..<height]"

definition generate_island_mask :: "nat \<Rightarrow> nat \<Rightarrow> field" where
  "generate_island_mask width height =
     (let cx = real width / 2; cy = real height / 2;
          maxDist = min cx cy
      in map (\<lambda>y. map (\<lambda>x.
           let dx = real x - cx; dy = real y - cy;
               dist = sqrt (dx * dx + dy * dy);
               value = js_sub (Num 1) (js_div (Num dist) (Num maxDist))
           in if js_lt value (Num 0) then Num 0 else value) [0..<width]) [0..<height])"

definition generate_checkerboard :: "nat \<Rightarrow> nat \<Rightarrow> jsval \<Rightarrow> field" where
  "generate_checkerboard width height size_opt =
     map (\<lambda>y. map (\<lambda>x.
         if js_mod (js_add (js_floor (js_div (Num (real x)) size_opt))
                           (js_floor (js_div (Num (real y)) size_opt))) (Num 2) = Num 0
         then Num 1 else Num 0) [0..<width]) [0..<height]"

definition generate_edge_falloff :: "nat \<Rightarrow> nat \<Rightarrow> jsval \<Rightarrow> field" where
  "generate_edge_falloff width height margin =
     map (\<lambda>y. map (\<lambda>x.
         let dx = min (real x) (real width - 1 - real x);
             dy = min (real y) (real height - 1 - real y);
             d = min dx dy
         in js_min (Num 1) (js_div (Num d) margin)) [0..<width]) [0..<height]"

text \<open>
  The switch of \<open>CreateNoiseMask\<close> has no default branch and nothing follows it: for any
  other \<open>maskType\<close> the function ends without a return statement, and the caller
  receives \<open>undefined\<close>, here \<open>None\<close>.  The argument \<open>opt\<close> is \<open>Undefined\<close> when omitted.
\<close>

definition CreateNoiseMask ::
  "'r rng_ops \<Rightarrow> 'r noise_state \<Rightarrow> int \<Rightarrow> nat \<Rightarrow> nat \<Rightarrow> jsval
     \<Rightarrow> field option \<times> 'r noise_state" where
  "CreateNoiseMask R s maskType width height opt =
     (let s1 = ensure_rng R s
      in if maskType = Gradient then (Some (generate_gradient_mask width height), s1)
         else if maskType = Solid then (Some (generate_solid_mask width height opt), s1)
         else if maskType = Island then (Some (generate_island_mask width height), s1)
         else if maskType = Edge_falloff then (Some (generate_edge_falloff width height opt), s1)
         else if maskType = Horizontal_gradient then
           (Some (generate_horizontal_gradient width height), s1)
         else if maskType = Vertical_gradient then
           (Some (generate_vertical_gradient width height), s1)
         else if maskType = Checkerboard then (Some (generate_checkerboard width height opt), s1)
         else (None, s1))"

section \<open>Combining two maps\<close>

text \<open>
  The repository holds two copies of \<open>combineNoiseMaps\<close>, and they differ.  The copy of
  the namespace that also has the masks (\<open>operation\<close> is a \<open>CombineOptions\<close>) comes
  first: \<open>combine_cell\<close> is its switch over \<open>operation\<close> inside the two loops, with the
  square root of the product as case 0 and the quotient as case 5.
\<close>

definition combine_cell :: "int \<Rightarrow> jsval \<Rightarrow> jsval \<Rightarrow> jsval" where
  "combine_cell operation val1 val2 =
     (if operation = 0 then js_sqrt (js_mul val1 val2)
      else if operation = 1 then js_div (js_add val1 val2) (Num 2)
      else if operation = 2 then
        js_max (Num 0) (js_min (Num 1) (js_add (js_sub val1 val2) (Num (1 / 2))))
      else if operation = 3 then js_max val1 val2
      else if operation = 4 then js_min val1 val2
      else if operation = 5 then js_div val1 val2
      else val1)"

text \<open>
  \<open>noiseMap1[0].length\<close> is read before the loops: with an empty map on either side
  \<open>noiseMap[0]\<close> is \<open>undefined\<close> and the read raises.
\<close>

definition combineNoiseMaps :: "field \<Rightarrow> field \<Rightarrow> int \<Rightarrow> error + field" where
  "combineNoiseMaps noiseMap1 noiseMap2 operation =
     (let h = min (length noiseMap1) (length noiseMap2)
      in case (noiseMap1, noiseMap2) of
           (row1 # rest1, row2 # rest2) \<Rightarrow>
             (let w = min (length row1) (length row2)
              in Inr (map (\<lambda>y. map (\<lambda>x.
                        combine_cell operation (cell (noiseMap1 ! y) x) (cell (noiseMap2 ! y) x))
                      [0..<w]) [0..<h]))
         | _ \<Rightarrow> Inl TypeError)"

text \<open>
  The copy in \<open>src/noise_.ts\<close> (\<open>operation\<close> is a \<open>number\<close>, documented as
  \<open>0=multiply, 1=add, 2=subtract, 3=max, 4=min\<close>) has the same loops and the same cropping,
  but its case 0 is the product itself and it has no case 5: 5 falls to the default.
\<close>

definition combine_cell_noise_ts :: "int \<Rightarrow> jsval \<Rightarrow> jsval \<Rightarrow> jsval" where
  "combine_cell_noise_ts operation val1 val2 =
     (if operation = 0 then js_mul val1 val2
      else if operation = 1 then js_div (js_add val1 val2) (Num 2)
      else if operation = 2 then
        js_max (Num 0) (js_min (Num 1) (js_add (js_sub val1 val2) (Num (1 / 2))))
      else if operation = 3 then js_max val1 val2
      else if operation = 4 then js_min val1 val2
      else val1)"

definition combineNoiseMaps_noise_ts :: "field \<Rightarrow> field \<Rightarrow> int \<Rightarrow> error + field" where
  "combineNoiseMaps_noise_ts noiseMap1 noiseMap2 operation =
     (let h = min (length noiseMap1) (length noiseMap2)
      in case (noiseMap1, noiseMap2) of
           (row1 # rest1, row2 # rest2) \<Rightarrow>
             (let w = min (length row1) (length row2)
              in Inr (map (\<lambda>y. map (\<lambda>x.
                        combine_cell_noise_ts operation
                          (cell (noiseMap1 ! y) x) (cell (noiseMap2 ! y) x))
                      [0..<w]) [0..<h]))
         | _ \<Rightarrow> Inl TypeError)"

section \<open>A generator for concrete runs\<close>

text \<open>
  A stand-in for the generator of the other package, to run the functions on concrete
  inputs: its state counts the draws, and every draw is 0, so every gradient is \<open>(1, 0)\<close>.
\<close>

definition zero_rng :: "nat rng_ops" where
  "zero_rng = \<lparr>new_rng = (\<lambda>seed. 0), nextNumber = (\<lambda>r. (0, Suc r))\<rparr>"

definition fresh_state :: "nat noise_state" where
  "fresh_state = \<lparr>nodes = 12, gradients = [], currentRng = Some 0\<rparr>"

text \<open>A state whose grid holds the four axis directions.\<close>

definition turned_state :: "nat noise_state" where
  "turned_state =
     \<lparr>nodes = 2,
      gradients = [[\<lparr>vec_x = 1, vec_y = 0\<rparr>, \<lparr>vec_x = 0, vec_y = 1\<rparr>],
                   [\<lparr>vec_x = 0, vec_y = - 1\<rparr>, \<lparr>vec_x = - 1, vec_y = 0\<rparr>]],
      currentRng = None\<rparr>"

section \<open>Predicates of the statements\<close>

text \<open>
  A gradient grid as \<open>initialize_gradients\<close> leaves it: \<open>n\<close> rows of \<open>n\<close> vectors of
  length 1.
\<close>

definition unit_vec :: "vec2 \<Rightarrow> bool" where
  "unit_vec g = ((vec_x g)\<^sup>2 + (vec_y g)\<^sup>2 = 1)"

definition grid_ok :: "nat \<Rightarrow> vec2 list list \<Rightarrow> bool" where
  "grid_ok n g = (length g = n \<and> (\<forall>row \<in> set g. length row = n \<and> (\<forall>v \<in> set row. unit_vec v)))"

text \<open>
  A coordinate pair whose four surrounding lattice points are indices of an \<open>n\<close> by \<open>n\<close>
  grid.
\<close>

definition in_range :: "nat \<Rightarrow> real \<Rightarrow> real \<Rightarrow> bool" where
  "in_range n x y = (0 \<le> \<lfloor>x\<rfloor> \<and> \<lfloor>x\<rfloor> + 1 < int n \<and> 0 \<le> \<lfloor>y\<rfloor> \<and> \<lfloor>y\<rfloor> + 1 < int n)"

text \<open>
  What each of the four gradient-based generators stores for the value \<open>v\<close> that
  \<open>perlin_get\<close> returned: Perlin stores it, Ridged folds it, Terrain raises it to the power
  1.5, River subtracts the Ridged cell from 1.
\<close>

definition noise_cell :: "int \<Rightarrow> real \<Rightarrow> jsval" where
  "noise_cell noiseType v =
     (if noiseType = Perlin then Num v
      else if noiseType = Ridged then Num (ridged_value v)
      else if noiseType = Terrain then math_pow_1_5 v
      else js_sub (Num 1) (Num (ridged_value v)))"

text \<open>Two states of the namespace that hold the same generator.\<close>

definition same_rng :: "'r noise_state \<Rightarrow> 'r noise_state \<Rightarrow> bool" where
  "same_rng s t = (currentRng s = currentRng t)"

section \<open>The ridged fold\<close>

text \<open>
  Claim C1, as stated: on \<open>[0, 1]\<close> the ridged transform is 1 exactly at 0 and 1, and 0
  exactly at one half.  The code folds the other way round: the transform is 0 at both
  ends of the interval and 1 at its midpoint.
\<close>

theorem ridged_value_ends_counterexample:
  "ridged_value 0 \<noteq> 1 \<and> ridged_value 1 \<noteq> 1 \<and> ridged_value (1 / 2) \<noteq> 0"
  by (simp add: ridged_value_def)

text \<open>
  Claim C1, amended: for every \<open>v\<close> in \<open>[0, 1]\<close> the ridged transform \<open>1 - |2v - 1|\<close> lies
  in \<open>[0, 1]\<close>, reaches its maximum 1 exactly when \<open>v = 1/2\<close>, and its minimum 0 exactly
  when \<open>v\<close> is 0 or 1.
\<close>

theorem ridged_value_extrema:
  assumes "0 \<le> v" and "v \<le> 1"
  shows "0 \<le> ridged_value v \<and> ridged_value v \<le> 1
         \<and> (ridged_value v = 1 \<longleftrightarrow> v = 1 / 2)
         \<and> (ridged_value v = 0 \<longleftrightarrow> v = 0 \<or> v = 1)"
  using assms unfolding ridged_value_def by (auto simp: abs_if)

theorem ridged_value_extrema_witness:
  "(0::real) \<le> 1 / 2 \<and> (1 / 2 :: real) \<le> 1
   \<and> ridged_value (1 / 2) = 1 \<and> ridged_value (1 / 2) \<noteq> 0"
  using ridged_value_extrema [of "1 / 2"] by simp

section \<open>Combining: cropping and the cell operations\<close>

lemma combineNoiseMaps_nonempty:
  assumes "a \<noteq> []" and "b \<noteq> []"
  shows "combineNoiseMaps a b operation =
     Inr (map (\<lambda>y. map (\<lambda>x. combine_cell operation (cell (a ! y) x) (cell (b ! y) x))
                 [0..<min (length (hd a)) (length (hd b))])
            [0..<min (length a) (length b)])"
  using assms by (cases a; cases b) (simp_all add: combineNoiseMaps_def)

lemma js_max_Num: "js_max (Num p) (Num q) = Num (max p q)"
  by (simp add: js_max_def max_def)

lemma js_min_Num: "js_min (Num p) (Num q) = Num (min p q)"
  by (simp add: js_min_def min_def)

lemma combineNoiseMaps_noise_ts_nonempty:
  assumes "a \<noteq> []" and "b \<noteq> []"
  shows "combineNoiseMaps_noise_ts a b operation =
     Inr (map (\<lambda>y. map (\<lambda>x. combine_cell_noise_ts operation (cell (a ! y) x) (cell (b ! y) x))
                 [0..<min (length (hd a)) (length (hd b))])
            [0..<min (length a) (length b)])"
  using assms by (cases a; cases b) (simp_all add: combineNoiseMaps_noise_ts_def)

text \<open>
  Claim C6, as stated, is about \<open>combineNoiseMaps\<close> and cites both copies.  The copy in
  \<open>src/noise_.ts\<close> returns the raw product under operation 0: 4 for two cells holding 2,
  where the square root of the product is 2.
\<close>

theorem combine_product_noise_ts_counterexample:
  "combineNoiseMaps_noise_ts [[Num 2]] [[Num 2]] 0 = Inr [[Num 4]]
   \<and> js_sqrt (js_mul (Num 2) (Num 2)) = Num 2
   \<and> combineNoiseMaps_noise_ts [[Num 2]] [[Num 2]] 0
       \<noteq> Inr [[js_sqrt (js_mul (Num 2) (Num 2))]]"
  by (simp add: combineNoiseMaps_noise_ts_def combine_cell_noise_ts_def cell_def js_mul_def)

text \<open>
  Claim C6, amended: for two non-empty maps and every cell \<open>(x, y)\<close> of the combined
  region, the \<open>combineNoiseMaps\<close> that takes a \<open>CombineOptions\<close> returns, under Product,
  \<open>Math.sqrt(a[y][x] * b[y][x])\<close> at that cell, the square root of the product and not the
  product (for finite cells with a non-negative product, the real square root); the copy
  in \<open>src/noise_.ts\<close> returns, under its operation 0, the product \<open>a[y][x] * b[y][x]\<close>
  itself.
\<close>

theorem combine_product_two_copies:
  assumes "a \<noteq> []" and "b \<noteq> []"
    and "y < min (length a) (length b)"
    and "x < min (length (hd a)) (length (hd b))"
  shows "\<exists>r r'. combineNoiseMaps a b Combine_Product = Inr r
           \<and> y < length r \<and> x < length (r ! y)
           \<and> r ! y ! x = js_sqrt (js_mul (cell (a ! y) x) (cell (b ! y) x))
           \<and> (\<forall>p q. cell (a ! y) x = Num p \<and> cell (b ! y) x = Num q \<and> 0 \<le> p * q
                 \<longrightarrow> r ! y ! x = Num (sqrt (p * q)))
           \<and> combineNoiseMaps_noise_ts a b 0 = Inr r'
           \<and> y < length r' \<and> x < length (r' ! y)
           \<and> r' ! y ! x = js_mul (cell (a ! y) x) (cell (b ! y) x)
           \<and> (\<forall>p q. cell (a ! y) x = Num p \<and> cell (b ! y) x = Num q
                 \<longrightarrow> r' ! y ! x = Num (p * q))"
  using assms
  by (simp add: combineNoiseMaps_nonempty combineNoiseMaps_noise_ts_nonempty
      Combine_Product_def combine_cell_def combine_cell_noise_ts_def js_mul_def)

theorem combine_product_two_copies_witness:
  "\<exists>r r'. combineNoiseMaps [[Num 2, Num 5]] [[Num 2]] Combine_Product = Inr r
        \<and> r ! 0 ! 0 = Num 2
        \<and> combineNoiseMaps_noise_ts [[Num 2, Num 5]] [[Num 2]] 0 = Inr r'
        \<and> r' ! 0 ! 0 = Num 4"
  using combine_product_two_copies [of "[[Num 2, Num 5]]" "[[Num 2]]" 0 0]
  by (auto simp: cell_def)

text \<open>
  Claim C7: for two non-empty rectangular maps, \<open>h1\<close> by \<open>w1\<close> and \<open>h2\<close> by \<open>w2\<close>,
  \<open>combineNoiseMaps\<close> returns, whatever the operation and without raising, a map of
  \<open>min h1 h2\<close> rows of \<open>min w1 w2\<close> cells; under Union every cell of it is
  \<open>Math.max(a[y][x], b[y][x])\<close>, under Intersection \<open>Math.min(a[y][x], b[y][x])\<close>, which
  on finite cells are the maximum and the minimum of the two reals.
\<close>

theorem combine_crop_union_intersection:
  assumes "a \<noteq> []" and "b \<noteq> []"
    and "\<forall>row \<in> set a. length row = w1" and "\<forall>row \<in> set b. length row = w2"
    and "y < min (length a) (length b)" and "x < min w1 w2"
  shows "\<exists>r u i. combineNoiseMaps a b operation = Inr r
           \<and> length r = min (length a) (length b)
           \<and> (\<forall>row \<in> set r. length row = min w1 w2)
           \<and> combineNoiseMaps a b Combine_Union = Inr u
           \<and> u ! y ! x = js_max (a ! y ! x) (b ! y ! x)
           \<and> combineNoiseMaps a b Combine_Intersection = Inr i
           \<and> i ! y ! x = js_min (a ! y ! x) (b ! y ! x)
           \<and> (\<forall>p q. a ! y ! x = Num p \<and> b ! y ! x = Num q
                 \<longrightarrow> u ! y ! x = Num (max p q) \<and> i ! y ! x = Num (min p q))"
proof -
  from assms(1,3) have wa: "length (hd a) = w1" by (cases a) auto
  from assms(2,4) have wb: "length (hd b) = w2" by (cases b) auto
  from assms(3,5) have xa: "length (a ! y) = w1" by simp
  from assms(4,5) have xb: "length (b ! y) = w2" by simp
  from xa xb assms(6) have cells: "cell (a ! y) x = a ! y ! x" "cell (b ! y) x = b ! y ! x"
    by (simp_all add: cell_def)
  show ?thesis
    using assms(5,6) cells
    by (simp add: combineNoiseMaps_nonempty [OF assms(1,2)] wa wb combine_cell_def
        Combine_Union_def Combine_Intersection_def js_max_Num js_min_Num)
qed

theorem combine_crop_union_intersection_witness:
  "\<exists>r u i. combineNoiseMaps [[Num 1, Num 5], [Num 2, Num 0]] [[Num 3]] Combine_Average = Inr r
      \<and> length r = 1 \<and> length (r ! 0) = 1
      \<and> combineNoiseMaps [[Num 1, Num 5], [Num 2, Num 0]] [[Num 3]] Combine_Union = Inr u
      \<and> u ! 0 ! 0 = Num 3
      \<and> combineNoiseMaps [[Num 1, Num 5], [Num 2, Num 0]] [[Num 3]] Combine_Intersection = Inr i
      \<and> i ! 0 ! 0 = Num 1"
  using combine_crop_union_intersection
    [of "[[Num 1, Num 5], [Num 2, Num 0]]" "[[Num 3]]" 2 1 0 0 Combine_Average]
  by (auto simp: nth_Cons')

text \<open>
  Claim C8: for two non-empty maps and every cell of the combined region, the Quotient
  operation returns \<open>a[y][x] / b[y][x]\<close> and nothing else: no error is raised and no
  value is substituted.  Where the divisor is 0 the cell is the division's own result,
  an infinity or NaN, never a finite number.
\<close>

theorem combine_quotient_unguarded:
  assumes "a \<noteq> []" and "b \<noteq> []"
    and "y < min (length a) (length b)"
    and "x < min (length (hd a)) (length (hd b))"
  shows "\<exists>r. combineNoiseMaps a b Combine_Quotient = Inr r
           \<and> y < length r \<and> x < length (r ! y)
           \<and> r ! y ! x = js_div (cell (a ! y) x) (cell (b ! y) x)
           \<and> (cell (b ! y) x = Num 0 \<longrightarrow> (\<forall>q. r ! y ! x \<noteq> Num q))"
proof -
  have "js_div v (Num 0) \<noteq> Num q" for v q
    by (cases v) (simp_all add: js_div_def)
  with assms show ?thesis
    by (simp add: combineNoiseMaps_nonempty Combine_Quotient_def combine_cell_def)
qed

theorem combine_quotient_unguarded_witness:
  "\<exists>r. combineNoiseMaps [[Num 1, Num 0]] [[Num 0, Num 0]] Combine_Quotient = Inr r
        \<and> r ! 0 ! 0 = PosInf"
  using combine_quotient_unguarded [of "[[Num 1, Num 0]]" "[[Num 0, Num 0]]" 0 0]
  by (auto simp: cell_def js_div_def)

section \<open>Masks: the vertical gradient and the dispatch\<close>

text \<open>
  Claim C9, as stated, covers a mask of height 1.  Its only row is both the row \<open>y = 0\<close>
  and the row \<open>y = height - 1\<close>; the code computes \<open>0 / 0\<close> for it, which is NaN, neither
  0 nor 1.
\<close>

theorem vertical_gradient_single_row_counterexample:
  "fst (CreateNoiseMask zero_rng fresh_state Vertical_gradient 1 1 Undefined) = Some [[NaN]]
   \<and> the (fst (CreateNoiseMask zero_rng fresh_state Vertical_gradient 1 1 Undefined)) ! 0 ! 0
       \<noteq> Num 0
   \<and> the (fst (CreateNoiseMask zero_rng fresh_state Vertical_gradient 1 1 Undefined)) ! (1 - 1) ! 0
       \<noteq> Num 1"
  by (simp add: CreateNoiseMask_def Vertical_gradient_def Gradient_def Solid_def Island_def
      Edge_falloff_def Horizontal_gradient_def generate_vertical_gradient_def js_div_def)

lemma CreateNoiseMask_Vertical:
  "fst (CreateNoiseMask R s Vertical_gradient width height opt)
     = Some (generate_vertical_gradient width height)"
  by (simp add: CreateNoiseMask_def Vertical_gradient_def Gradient_def Solid_def Island_def
      Edge_falloff_def Horizontal_gradient_def)

text \<open>
  Claim C9, amended: for every width of at least 1 and every height of at least 2, the
  Vertical gradient mask returned by \<open>CreateNoiseMask\<close> has \<open>height\<close> rows of \<open>width\<close>
  cells, its value is 0 at every cell of row 0 and 1 at every cell of row \<open>height - 1\<close>,
  and every cell of row \<open>y\<close> is \<open>y / (height - 1)\<close>.
\<close>

theorem vertical_gradient_ends:
  assumes "1 \<le> width" and "2 \<le> height" and "x < width" and "y < height"
  shows "\<exists>m. fst (CreateNoiseMask R s Vertical_gradient width height opt) = Some m
           \<and> length m = height \<and> (\<forall>row \<in> set m. length row = width)
           \<and> m ! 0 ! x = Num 0
           \<and> m ! (height - 1) ! x = Num 1
           \<and> m ! y ! x = Num (real y / (real height - 1))"
proof -
  let ?m = "generate_vertical_gradient width height"
  have h1: "real height - 1 \<noteq> 0" using assms(2) by simp
  have cellv: "?m ! k ! x = Num (real k / (real height - 1))" if "k < height" for k
    using that assms(3) h1 by (simp add: generate_vertical_gradient_def js_div_def)
  have "?m ! 0 ! x = Num 0" using cellv [of 0] assms(2) by simp
  moreover have "?m ! (height - 1) ! x = Num 1"
    using cellv [of "height - 1"] assms(2) h1 by simp
  moreover have "?m ! y ! x = Num (real y / (real height - 1))"
    using cellv [OF assms(4)] .
  moreover have "length ?m = height" "\<forall>row \<in> set ?m. length row = width"
    by (auto simp: generate_vertical_gradient_def)
  ultimately show ?thesis
    by (simp add: CreateNoiseMask_Vertical)
qed

theorem vertical_gradient_ends_witness:
  "\<exists>m. fst (CreateNoiseMask zero_rng fresh_state Vertical_gradient 1 3 Undefined) = Some m
      \<and> m ! 0 ! 0 = Num 0 \<and> m ! 2 ! 0 = Num 1 \<and> m ! 1 ! 0 = Num (1 / 2)"
  using vertical_gradient_ends [of 1 3 0 1 zero_rng fresh_state Undefined]
  by auto

text \<open>
  Claim C10: with a \<open>maskType\<close> that is none of the seven variants (the numbers 0 to 6)
  \<open>CreateNoiseMask\<close> returns \<open>undefined\<close>, whatever the width and height; with a
  \<open>noiseType\<close> that is none of the five variants (0 to 4) \<open>createNoiseMap\<close> returns the
  empty array.
\<close>

theorem unknown_kind_results:
  assumes "maskType < 0 \<or> 6 < maskType" and "noiseType < 0 \<or> 4 < noiseType"
  shows "fst (CreateNoiseMask R s maskType width height opt) = None
         \<and> createNoiseMap R s noiseType width height scale = Inr ([], ensure_rng R s)"
  using assms
  by (auto simp: CreateNoiseMask_def createNoiseMap_def Let_def
      Gradient_def Solid_def Island_def Edge_falloff_def Horizontal_gradient_def
      Vertical_gradient_def Checkerboard_def Perlin_def Static_def Ridged_def Terrain_def River_def)

theorem unknown_kind_results_witness:
  "fst (CreateNoiseMask zero_rng fresh_state 7 3 2 (Num 1)) = None
   \<and> createNoiseMap zero_rng fresh_state 5 3 2 (Some 4) = Inr ([], fresh_state)"
  using unknown_kind_results [of 7 5 zero_rng fresh_state 3 2 "Num 1" "Some 4"]
  by (simp add: ensure_rng_def fresh_state_def)

section \<open>Gradient-based synthesis stays inside the grid\<close>

lemma traverse_Inr:
  assumes "\<forall>a \<in> set xs. f a = Inr (g a)"
  shows "traverse f xs = Inr (map g xs)"
  using assms by (induction xs) simp_all

lemma repeatM_invariant:
  assumes step: "\<And>t. P t \<Longrightarrow> \<exists>a t'. f t = Inr (a, t') \<and> Q a \<and> P t'"
    and "P s"
  shows "\<exists>as s'. repeatM n f s = Inr (as, s') \<and> length as = n \<and> (\<forall>a \<in> set as. Q a) \<and> P s'"
  using \<open>P s\<close>
proof (induction n arbitrary: s)
  case 0
  then show ?case by simp
next
  case (Suc n)
  from step [OF Suc.prems] obtain a t' where a: "f s = Inr (a, t')" "Q a" "P t'"
    by blast
  from Suc.IH [OF a(3)] obtain as s' where
    "repeatM n f t' = Inr (as, s')" "length as = n" "\<forall>a \<in> set as. Q a" "P s'"
    by blast
  with a show ?case by simp
qed

lemma random_unit_vector_ok:
  assumes "currentRng t \<noteq> None \<and> nodes t = k"
  shows "\<exists>g t'. random_unit_vector R t = Inr (g, t') \<and> unit_vec g
           \<and> (currentRng t' \<noteq> None \<and> nodes t' = k)"
  using assms
  by (auto simp: random_unit_vector_def seeded_random_def unit_vec_def Let_def
      split: option.splits prod.splits)

lemma initialize_gradients_ok:
  assumes "currentRng s \<noteq> None"
  shows "\<exists>s'. initialize_gradients R s = Inr s' \<and> nodes s' = nodes s
           \<and> currentRng s' \<noteq> None \<and> grid_ok (nodes s) (gradients s')"
proof -
  let ?P = "\<lambda>t. currentRng t \<noteq> None \<and> nodes t = nodes s"
  have row: "\<exists>row t'. repeatM (nodes s) (random_unit_vector R) t = Inr (row, t')
               \<and> (length row = nodes s \<and> (\<forall>v \<in> set row. unit_vec v)) \<and> ?P t'"
    if "?P t" for t
    using repeatM_invariant [where P = ?P and Q = unit_vec and f = "random_unit_vector R"
        and s = t and n = "nodes s"] random_unit_vector_ok [where k = "nodes s" and R = R] that
    by blast
  have "?P (s\<lparr>gradients := []\<rparr>)" using assms by simp
  from repeatM_invariant [where P = ?P and f = "repeatM (nodes s) (random_unit_vector R)"
      and Q = "\<lambda>row. length row = nodes s \<and> (\<forall>v \<in> set row. unit_vec v)"
      and n = "nodes s", OF row this]
  obtain rows s' where
    "repeatM (nodes s) (repeatM (nodes s) (random_unit_vector R)) (s\<lparr>gradients := []\<rparr>)
       = Inr (rows, s')"
    "length rows = nodes s" "\<forall>row \<in> set rows. length row = nodes s \<and> (\<forall>v \<in> set row. unit_vec v)"
    "?P s'"
    by blast
  then show ?thesis
    by (simp add: initialize_gradients_def grid_ok_def)
qed

lemma sample_coord_in_range:
  assumes "i < n" and "2 \<le> nodes s"
  shows "0 \<le> \<lfloor>sample_coord s i n\<rfloor> \<and> \<lfloor>sample_coord s i n\<rfloor> + 1 < int (nodes s)"
proof -
  let ?k = "real (nodes s) - 1"
  have k: "0 < ?k" using assms(2) by simp
  have q: "0 \<le> real i / real n" "real i / real n < 1" using assms(1) by simp_all
  have lo: "0 \<le> sample_coord s i n"
    unfolding sample_coord_def using q(1) k by simp
  have "real i / real n * ?k < 1 * ?k"
    using q(2) k by (rule mult_strict_right_mono)
  then have hi: "sample_coord s i n < real_of_int (int (nodes s) - 1)"
    unfolding sample_coord_def by simp
  from lo have "0 \<le> \<lfloor>sample_coord s i n\<rfloor>" by simp
  moreover from hi have "\<lfloor>sample_coord s i n\<rfloor> < int (nodes s) - 1"
    by (simp only: floor_less_iff)
  ultimately show ?thesis by simp
qed

lemma dot_prod_grid_ok:
  assumes "grid_ok n (gradients s)" and "0 \<le> vx" and "vx < int n" and "0 \<le> vy" and "vy < int n"
  shows "dot_prod_grid s x y vx vy =
           Inr ((x - of_int vx) * vec_x (gradients s ! nat vy ! nat vx)
                + (y - of_int vy) * vec_y (gradients s ! nat vy ! nat vx))"
  using assms by (simp add: dot_prod_grid_def index_def grid_ok_def)

lemma perlin_blend_ok:
  assumes "grid_ok n (gradients s)" and "in_range n x y"
  shows "\<exists>b. perlin_blend s x y = Inr b"
  using assms
  by (simp add: perlin_blend_def Let_def in_range_def dot_prod_grid_ok [OF assms(1)])

lemma perlin_get_ok:
  assumes "grid_ok n (gradients s)" and "in_range n x y"
  shows "\<exists>v. perlin_get s x y = Inr v"
proof -
  from perlin_blend_ok [OF assms] obtain b where "perlin_blend s x y = Inr b" ..
  then have "perlin_get s x y = Inr ((b + 1) / 2)" by (simp add: perlin_get_def)
  then show ?thesis ..
qed

lemma sample_in_range:
  assumes "2 \<le> nodes s" and "x < width" and "y < height"
  shows "in_range (nodes s) (sample_coord s x width) (sample_coord s y height)"
  using sample_coord_in_range [OF assms(2,1)] sample_coord_in_range [OF assms(3,1)]
  by (simp add: in_range_def)

lemma traverse_rows:
  assumes "\<And>x y. x < width \<Longrightarrow> y < height \<Longrightarrow> \<exists>v. f y x = Inr v"
  shows "\<exists>m. traverse (\<lambda>y. traverse (f y) [0..<width]) [0..<height] = Inr m
           \<and> length m = height \<and> (\<forall>row \<in> set m. length row = width)
           \<and> (\<forall>y < height. \<forall>x < width. f y x = Inr (m ! y ! x))"
proof -
  define g where "g y x = projr (f y x)" for y x
  have cellv: "f y x = Inr (g y x)" if "x < width" "y < height" for x y
    using assms [OF that] by (auto simp: g_def)
  have rowv: "traverse (f y) [0..<width] = Inr (map (g y) [0..<width])" if "y < height" for y
    using cellv that by (intro traverse_Inr) simp
  have "traverse (\<lambda>y. traverse (f y) [0..<width]) [0..<height]
          = Inr (map (\<lambda>y. map (g y) [0..<width]) [0..<height])"
    using rowv by (intro traverse_Inr) simp
  moreover have "\<forall>y < height. \<forall>x < width.
      f y x = Inr (map (\<lambda>y. map (g y) [0..<width]) [0..<height] ! y ! x)"
    using cellv by simp
  ultimately show ?thesis by auto
qed

lemma sampled_rows:
  assumes "grid_ok (nodes s) (gradients s)" and "2 \<le> nodes s"
  shows "\<exists>m. traverse (\<lambda>y. traverse (\<lambda>x.
                case perlin_get s (sample_coord s x width) (sample_coord s y height) of
                  Inl e \<Rightarrow> Inl e
                | Inr v \<Rightarrow> Inr (h v)) [0..<width]) [0..<height] = Inr m
           \<and> length m = height \<and> (\<forall>row \<in> set m. length row = width)
           \<and> (\<forall>y < height. \<forall>x < width. \<exists>v.
                 perlin_get s (sample_coord s x width) (sample_coord s y height) = Inr v
                 \<and> m ! y ! x = h v)"
proof -
  let ?f = "\<lambda>y x. case perlin_get s (sample_coord s x width) (sample_coord s y height) of
               Inl e \<Rightarrow> Inl e | Inr v \<Rightarrow> Inr (h v)"
  have "\<exists>v. ?f y x = Inr v" if "x < width" "y < height" for x y
    using perlin_get_ok [OF assms(1) sample_in_range [OF assms(2) that]] by auto
  from traverse_rows [of width height ?f, OF this]
  obtain m where m: "traverse (\<lambda>y. traverse (?f y) [0..<width]) [0..<height] = Inr m"
    "length m = height" "\<forall>row \<in> set m. length row = width"
    "\<forall>y < height. \<forall>x < width. ?f y x = Inr (m ! y ! x)"
    by blast
  have "\<exists>v. perlin_get s (sample_coord s x width) (sample_coord s y height) = Inr v
           \<and> m ! y ! x = h v" if "x < width" "y < height" for x y
  proof -
    from m(4) that have "?f y x = Inr (m ! y ! x)" by blast
    then show ?thesis
      by (cases "perlin_get s (sample_coord s x width) (sample_coord s y height)") auto
  qed
  with m(1-3) show ?thesis by blast
qed

lemma generate_perlin_noise_cells:
  assumes "grid_ok (nodes s) (gradients s)" and "2 \<le> nodes s"
  shows "\<exists>m. generate_perlin_noise s width height = Inr m
           \<and> length m = height \<and> (\<forall>row \<in> set m. length row = width)
           \<and> (\<forall>y < height. \<forall>x < width. \<exists>v.
                 perlin_get s (sample_coord s x width) (sample_coord s y height) = Inr v
                 \<and> m ! y ! x = Num v)"
  unfolding generate_perlin_noise_def by (rule sampled_rows [OF assms])

lemma generate_ridged_noise_cells:
  assumes "grid_ok (nodes s) (gradients s)" and "2 \<le> nodes s"
  shows "\<exists>m. generate_ridged_noise s width height = Inr m
           \<and> length m = height \<and> (\<forall>row \<in> set m. length row = width)
           \<and> (\<forall>y < height. \<forall>x < width. \<exists>v.
                 perlin_get s (sample_coord s x width) (sample_coord s y height) = Inr v
                 \<and> m ! y ! x = Num (ridged_value v))"
  unfolding generate_ridged_noise_def
  by (rule sampled_rows [OF assms, where h = "\<lambda>v. Num (ridged_value v)"])

lemma generate_terrain_noise_cells:
  assumes "grid_ok (nodes s) (gradients s)" and "2 \<le> nodes s"
  shows "\<exists>m. generate_terrain_noise s width height = Inr m
           \<and> length m = height \<and> (\<forall>row \<in> set m. length row = width)
           \<and> (\<forall>y < height. \<forall>x < width. \<exists>v.
                 perlin_get s (sample_coord s x width) (sample_coord s y height) = Inr v
                 \<and> m ! y ! x = math_pow_1_5 v)"
  unfolding generate_terrain_noise_def by (rule sampled_rows [OF assms])

lemma generate_river_noise_cells:
  assumes "grid_ok (nodes s) (gradients s)" and "2 \<le> nodes s"
  shows "\<exists>m. generate_river_noise s width height = Inr m
           \<and> length m = height \<and> (\<forall>row \<in> set m. length row = width)
           \<and> (\<forall>y < height. \<forall>x < width. \<exists>v.
                 perlin_get s (sample_coord s x width) (sample_coord s y height) = Inr v
                 \<and> m ! y ! x = js_sub (Num 1) (Num (ridged_value v)))"
proof -
  from generate_ridged_noise_cells [OF assms, of width height] obtain ridged where
    r: "generate_ridged_noise s width height = Inr ridged" "length ridged = height"
      "\<forall>row \<in> set ridged. length row = width"
      "\<forall>y < height. \<forall>x < width. \<exists>v.
         perlin_get s (sample_coord s x width) (sample_coord s y height) = Inr v
         \<and> ridged ! y ! x = Num (ridged_value v)"
    by blast
  let ?f = "\<lambda>y x. case read2 ridged y x of Inl e \<Rightarrow> Inl e | Inr r \<Rightarrow> Inr (js_sub (Num 1) r)"
  have rd: "?f y x = Inr (js_sub (Num 1) (ridged ! y ! x))" if "x < width" "y < height" for x y
    using that r(2,3) by (simp add: read2_def cell_def)
  then have "\<exists>v. ?f y x = Inr v" if "x < width" "y < height" for x y
    using that by blast
  from traverse_rows [of width height ?f, OF this] obtain m where
    m: "traverse (\<lambda>y. traverse (?f y) [0..<width]) [0..<height] = Inr m"
      "length m = height" "\<forall>row \<in> set m. length row = width"
      "\<forall>y < height. \<forall>x < width. ?f y x = Inr (m ! y ! x)"
    by blast
  have "\<exists>v. perlin_get s (sample_coord s x width) (sample_coord s y height) = Inr v
           \<and> m ! y ! x = js_sub (Num 1) (Num (ridged_value v))"
    if "x < width" "y < height" for x y
  proof -
    from r(4) that obtain v where
      v: "perlin_get s (sample_coord s x width) (sample_coord s y height) = Inr v"
        "ridged ! y ! x = Num (ridged_value v)"
      by blast
    from m(4) that rd [OF that] have "m ! y ! x = js_sub (Num 1) (ridged ! y ! x)"
      by simp
    with v show ?thesis by simp
  qed
  moreover have "generate_river_noise s width height = Inr m"
    by (simp add: generate_river_noise_def r(1) m(1))
  ultimately show ?thesis using m(2,3) by blast
qed

lemma ensure_rng_Some: "currentRng (ensure_rng R s) \<noteq> None"
  by (simp add: ensure_rng_def split: option.splits)

lemma gradient_branch_ok:
  assumes "currentRng s \<noteq> None" and "2 \<le> scale"
    and gen: "\<And>t. grid_ok (nodes t) (gradients t) \<Longrightarrow> 2 \<le> nodes t \<Longrightarrow>
               \<exists>m. generate t = Inr m \<and> P t m"
  shows "\<exists>m s'. gradient_branch R s (Some scale) generate = Inr (m, s')
           \<and> nodes s' = scale \<and> grid_ok scale (gradients s') \<and> P s' m"
proof -
  let ?s = "s\<lparr>nodes := or_default (Some scale) 4\<rparr>"
  have n: "nodes ?s = scale" using assms(2) by (simp add: or_default_def)
  have "currentRng ?s \<noteq> None" using assms(1) by simp
  from initialize_gradients_ok [OF this, of R] n obtain s' where
    s': "initialize_gradients R ?s = Inr s'" "nodes s' = scale" "grid_ok scale (gradients s')"
    by auto
  from gen [of s'] s'(2,3) assms(2) obtain m where "generate s' = Inr m" "P s' m"
    by auto
  with s' show ?thesis by (simp add: gradient_branch_def)
qed

text \<open>
  Claim C3: for width and height of at least 1 and a scale of at least 2, \<open>createNoiseMap\<close>
  with kind Perlin, Ridged, Terrain or River returns a map of \<open>height\<close> rows of \<open>width\<close>
  cells without raising, over a grid of \<open>scale\<close> by \<open>scale\<close> gradients; cell \<open>(x, y)\<close> of
  the map is computed from \<open>perlin_get\<close> at the coordinate
  \<open>(x / width * (nodes - 1), y / height * (nodes - 1))\<close>; that coordinate has
  \<open>0 \<le> floor\<close> and \<open>floor + 1 < nodes\<close> on both axes, so that each of the four reads
  \<open>gradients[vert_y][vert_x]\<close> of \<open>dot_prod_grid\<close> finds a vector.
\<close>

theorem createNoiseMap_samples_in_grid:
  assumes "1 \<le> width" and "1 \<le> height" and "2 \<le> scale"
    and "noiseType \<in> {Perlin, Ridged, Terrain, River}"
    and "x < width" and "y < height"
  shows "\<exists>m s' v. createNoiseMap R s noiseType width height (Some scale) = Inr (m, s')
           \<and> length m = height \<and> (\<forall>row \<in> set m. length row = width)
           \<and> nodes s' = scale \<and> length (gradients s') = scale
           \<and> (\<forall>row \<in> set (gradients s'). length row = scale)
           \<and> perlin_get s' (sample_coord s' x width) (sample_coord s' y height) = Inr v
           \<and> m ! y ! x = noise_cell noiseType v
           \<and> 0 \<le> \<lfloor>sample_coord s' x width\<rfloor> \<and> \<lfloor>sample_coord s' x width\<rfloor> + 1 < int scale
           \<and> 0 \<le> \<lfloor>sample_coord s' y height\<rfloor> \<and> \<lfloor>sample_coord s' y height\<rfloor> + 1 < int scale
           \<and> (\<forall>vx \<in> {\<lfloor>sample_coord s' x width\<rfloor>, \<lfloor>sample_coord s' x width\<rfloor> + 1}.
                \<forall>vy \<in> {\<lfloor>sample_coord s' y height\<rfloor>, \<lfloor>sample_coord s' y height\<rfloor> + 1}.
                  \<exists>d. dot_prod_grid s' (sample_coord s' x width) (sample_coord s' y height) vx vy
                        = Inr d)"
proof -
  let ?s1 = "ensure_rng R s"
  let ?P = "\<lambda>t m. length m = height \<and> (\<forall>row \<in> set m. length row = width)
              \<and> (\<forall>y < height. \<forall>x < width. \<exists>v.
                    perlin_get t (sample_coord t x width) (sample_coord t y height) = Inr v
                    \<and> m ! y ! x = noise_cell noiseType v)"
  have rng: "currentRng ?s1 \<noteq> None" by (rule ensure_rng_Some)
  have "\<exists>m s'. createNoiseMap R s noiseType width height (Some scale) = Inr (m, s')
           \<and> nodes s' = scale \<and> grid_ok scale (gradients s') \<and> ?P s' m"
  proof -
    consider "noiseType = Perlin" | "noiseType = Ridged" | "noiseType = Terrain"
      | "noiseType = River"
      using assms(4) by auto
    then show ?thesis
    proof cases
      case 1
      have "\<exists>m s'. gradient_branch R ?s1 (Some scale) (\<lambda>t. generate_perlin_noise t width height)
                 = Inr (m, s')
               \<and> nodes s' = scale \<and> grid_ok scale (gradients s') \<and> ?P s' m"
        using generate_perlin_noise_cells [of _ width height]
        by (intro gradient_branch_ok [OF rng assms(3)])
          (simp add: 1 noise_cell_def Perlin_def)
      with 1 show ?thesis
        by (simp add: createNoiseMap_def Perlin_def)
    next
      case 2
      have "\<exists>m s'. gradient_branch R ?s1 (Some scale) (\<lambda>t. generate_ridged_noise t width height)
                 = Inr (m, s')
               \<and> nodes s' = scale \<and> grid_ok scale (gradients s') \<and> ?P s' m"
        using generate_ridged_noise_cells [of _ width height]
        by (intro gradient_branch_ok [OF rng assms(3)])
          (simp add: 2 noise_cell_def Perlin_def Ridged_def)
      with 2 show ?thesis
        by (simp add: createNoiseMap_def Perlin_def Static_def Ridged_def)
    next
      case 3
      have "\<exists>m s'. gradient_branch R ?s1 (Some scale) (\<lambda>t. generate_terrain_noise t width height)
                 = Inr (m, s')
               \<and> nodes s' = scale \<and> grid_ok scale (gradients s') \<and> ?P s' m"
        using generate_terrain_noise_cells [of _ width height]
        by (intro gradient_branch_ok [OF rng assms(3)])
          (simp add: 3 noise_cell_def Perlin_def Ridged_def Terrain_def)
      with 3 show ?thesis
        by (simp add: createNoiseMap_def Perlin_def Static_def Ridged_def Terrain_def)
    next
      case 4
      have "\<exists>m s'. gradient_branch R ?s1 (Some scale) (\<lambda>t. generate_river_noise t width height)
                 = Inr (m, s')
               \<and> nodes s' = scale \<and> grid_ok scale (gradients s') \<and> ?P s' m"
        using generate_river_noise_cells [of _ width height]
        by (intro gradient_branch_ok [OF rng assms(3)])
          (simp add: 4 noise_cell_def Perlin_def Ridged_def Terrain_def River_def)
      with 4 show ?thesis
        by (simp add: createNoiseMap_def Perlin_def Static_def Ridged_def Terrain_def River_def)
    qed
  qed
  then obtain m s' where ms:
    "createNoiseMap R s noiseType width height (Some scale) = Inr (m, s')"
    "nodes s' = scale" "grid_ok scale (gradients s')"
    "length m = height" "\<forall>row \<in> set m. length row = width"
    "\<forall>y < height. \<forall>x < width. \<exists>v.
        perlin_get s' (sample_coord s' x width) (sample_coord s' y height) = Inr v
        \<and> m ! y ! x = noise_cell noiseType v"
    by blast
  from ms(6) assms(5,6) obtain v where v:
    "perlin_get s' (sample_coord s' x width) (sample_coord s' y height) = Inr v"
    "m ! y ! x = noise_cell noiseType v"
    by blast
  have n2: "2 \<le> nodes s'" using ms(2) assms(3) by simp
  note cx = sample_coord_in_range [OF assms(5) n2, unfolded ms(2)]
  note cy = sample_coord_in_range [OF assms(6) n2, unfolded ms(2)]
  have dots: "\<exists>d. dot_prod_grid s' cx cy vx vy = Inr d"
    if "0 \<le> vx" "vx < int scale" "0 \<le> vy" "vy < int scale" for cx cy vx vy
    using dot_prod_grid_ok [OF ms(3) that] by simp
  have "\<forall>vx \<in> {\<lfloor>sample_coord s' x width\<rfloor>, \<lfloor>sample_coord s' x width\<rfloor> + 1}.
        \<forall>vy \<in> {\<lfloor>sample_coord s' y height\<rfloor>, \<lfloor>sample_coord s' y height\<rfloor> + 1}.
          \<exists>d. dot_prod_grid s' (sample_coord s' x width) (sample_coord s' y height) vx vy = Inr d"
    using cx cy by (auto intro!: dots)
  moreover have "length (gradients s') = scale" "\<forall>row \<in> set (gradients s'). length row = scale"
    using ms(3) by (simp_all add: grid_ok_def)
  ultimately show ?thesis using ms(1,2,4,5) v cx cy by blast
qed

theorem createNoiseMap_samples_in_grid_witness:
  "\<exists>m s' v. createNoiseMap zero_rng fresh_state River 2 1 (Some 2) = Inr (m, s')
      \<and> length m = 1 \<and> length (m ! 0) = 2 \<and> nodes s' = 2 \<and> length (gradients s') = 2
      \<and> perlin_get s' (sample_coord s' 1 2) (sample_coord s' 0 1) = Inr v
      \<and> m ! 0 ! 1 = js_sub (Num 1) (Num (ridged_value v))
      \<and> 0 \<le> \<lfloor>sample_coord s' 1 2\<rfloor> \<and> \<lfloor>sample_coord s' 1 2\<rfloor> + 1 < 2"
  using createNoiseMap_samples_in_grid [of 2 1 2 River 1 0 zero_rng fresh_state]
  by (auto simp: noise_cell_def Perlin_def Ridged_def Terrain_def River_def)

section \<open>The range of coherent noise\<close>

lemma smootherstep_nonneg:
  assumes "0 \<le> t"
  shows "0 \<le> smootherstep t"
proof -
  have "smootherstep t = t ^ 3 * (6 * (t - 5 / 4)\<^sup>2 + 5 / 8)"
    by (simp add: smootherstep_def power2_eq_square eval_nat_numeral algebra_simps)
  moreover have "0 \<le> t ^ 3" using assms by simp
  moreover have "0 \<le> 6 * (t - 5 / 4)\<^sup>2 + 5 / 8" by simp
  ultimately show ?thesis by simp
qed

lemma smootherstep_mirror: "smootherstep (1 - t) = 1 - smootherstep t"
  by (simp add: smootherstep_def eval_nat_numeral algebra_simps)

lemma smootherstep_le_1:
  assumes "t \<le> 1"
  shows "smootherstep t \<le> 1"
  using smootherstep_nonneg [of "1 - t"] assms by (simp add: smootherstep_mirror)

lemma fold_half:
  assumes "0 \<le> t" and "t \<le> 1"
  shows "(1 - smootherstep t) * t + smootherstep t * (1 - t) \<le> 1 / 2"
proof -
  have "1 / 2 - ((1 - smootherstep t) * t + smootherstep t * (1 - t))
          = (2 * t - 1)\<^sup>2 * (3 * (t * (1 - t))\<^sup>2 + t * (1 - t) + 1 / 2)"
    by (simp add: smootherstep_def power2_eq_square eval_nat_numeral algebra_simps)
  moreover have "0 \<le> t * (1 - t)" using assms by simp
  then have "0 \<le> 3 * (t * (1 - t))\<^sup>2 + t * (1 - t) + 1 / 2" by simp
  then have "0 \<le> (2 * t - 1)\<^sup>2 * (3 * (t * (1 - t))\<^sup>2 + t * (1 - t) + 1 / 2)"
    by (intro mult_nonneg_nonneg) simp_all
  ultimately show ?thesis by linarith
qed

lemma unit_vec_dot_bound:
  assumes "unit_vec g"
  shows "\<bar>a * vec_x g + b * vec_y g\<bar> \<le> \<bar>a\<bar> + \<bar>b\<bar>"
proof -
  have "(vec_x g)\<^sup>2 \<le> 1" "(vec_y g)\<^sup>2 \<le> 1"
    using assms zero_le_power2 [of "vec_x g"] zero_le_power2 [of "vec_y g"]
    unfolding unit_vec_def by linarith+
  then have g1: "\<bar>vec_x g\<bar> \<le> 1" "\<bar>vec_y g\<bar> \<le> 1"
    using abs_le_square_iff [of "vec_x g" 1] abs_le_square_iff [of "vec_y g" 1] by simp_all
  have "\<bar>a * vec_x g + b * vec_y g\<bar> \<le> \<bar>a\<bar> * \<bar>vec_x g\<bar> + \<bar>b\<bar> * \<bar>vec_y g\<bar>"
    using abs_triangle_ineq [of "a * vec_x g" "b * vec_y g"] by (simp add: abs_mult)
  also have "\<dots> \<le> \<bar>a\<bar> * 1 + \<bar>b\<bar> * 1"
    using g1 by (intro add_mono mult_left_mono) simp_all
  finally show ?thesis by simp
qed

lemma interp_bound:
  assumes "0 \<le> smootherstep t" and "smootherstep t \<le> 1" and "\<bar>a\<bar> \<le> A" and "\<bar>b\<bar> \<le> B"
  shows "\<bar>interp t a b\<bar> \<le> (1 - smootherstep t) * A + smootherstep t * B"
proof -
  let ?u = "smootherstep t"
  have "interp t a b = (1 - ?u) * a + ?u * b"
    by (simp add: interp_def algebra_simps)
  then have "\<bar>interp t a b\<bar> \<le> \<bar>(1 - ?u) * a\<bar> + \<bar>?u * b\<bar>"
    using abs_triangle_ineq [of "(1 - ?u) * a" "?u * b"] by simp
  also have "\<dots> = (1 - ?u) * \<bar>a\<bar> + ?u * \<bar>b\<bar>"
    using assms(1,2) by (simp add: abs_mult)
  also have "\<dots> \<le> (1 - ?u) * A + ?u * B"
    using assms by (intro add_mono mult_left_mono) simp_all
  finally show ?thesis .
qed

lemma blend_bound:
  assumes t: "0 \<le> t" "t \<le> 1" and r: "0 \<le> r" "r \<le> 1"
    and g: "unit_vec g00" "unit_vec g10" "unit_vec g01" "unit_vec g11"
  shows "\<bar>interp r
           (interp t (t * vec_x g00 + r * vec_y g00) ((t - 1) * vec_x g10 + r * vec_y g10))
           (interp t (t * vec_x g01 + (r - 1) * vec_y g01)
                     ((t - 1) * vec_x g11 + (r - 1) * vec_y g11))\<bar> \<le> 1"
proof -
  let ?u = "smootherstep t" and ?w = "smootherstep r"
  have u: "0 \<le> ?u" "?u \<le> 1" and w: "0 \<le> ?w" "?w \<le> 1"
    using t r by (simp_all add: smootherstep_nonneg smootherstep_le_1)
  have n00: "\<bar>t * vec_x g00 + r * vec_y g00\<bar> \<le> t + r"
    using unit_vec_dot_bound [OF g(1), of t r] t r by simp
  have n10: "\<bar>(t - 1) * vec_x g10 + r * vec_y g10\<bar> \<le> (1 - t) + r"
    using unit_vec_dot_bound [OF g(2), of "t - 1" r] t r by simp
  have n01: "\<bar>t * vec_x g01 + (r - 1) * vec_y g01\<bar> \<le> t + (1 - r)"
    using unit_vec_dot_bound [OF g(3), of t "r - 1"] t r by simp
  have n11: "\<bar>(t - 1) * vec_x g11 + (r - 1) * vec_y g11\<bar> \<le> (1 - t) + (1 - r)"
    using unit_vec_dot_bound [OF g(4), of "t - 1" "r - 1"] t r by simp
  note ix0 = interp_bound [OF u n00 n10]
  note ix1 = interp_bound [OF u n01 n11]
  note all = interp_bound [OF w ix0 ix1]
  have "(1 - ?w) * ((1 - ?u) * (t + r) + ?u * (1 - t + r))
        + ?w * ((1 - ?u) * (t + (1 - r)) + ?u * (1 - t + (1 - r)))
        = ((1 - ?u) * t + ?u * (1 - t)) + ((1 - ?w) * r + ?w * (1 - r))"
    by (simp add: algebra_simps)
  also have "\<dots> \<le> 1 / 2 + 1 / 2"
    using fold_half [OF t] fold_half [OF r] by (rule add_mono)
  finally show ?thesis using all by simp
qed

lemma perlin_blend_in_range:
  assumes "grid_ok n (gradients s)" and "in_range n x y"
  shows "perlin_blend s x y =
     Inr (interp (frac y)
       (interp (frac x)
          (frac x * vec_x (gradients s ! nat \<lfloor>y\<rfloor> ! nat \<lfloor>x\<rfloor>)
           + frac y * vec_y (gradients s ! nat \<lfloor>y\<rfloor> ! nat \<lfloor>x\<rfloor>))
          ((frac x - 1) * vec_x (gradients s ! nat \<lfloor>y\<rfloor> ! nat (\<lfloor>x\<rfloor> + 1))
           + frac y * vec_y (gradients s ! nat \<lfloor>y\<rfloor> ! nat (\<lfloor>x\<rfloor> + 1))))
       (interp (frac x)
          (frac x * vec_x (gradients s ! nat (\<lfloor>y\<rfloor> + 1) ! nat \<lfloor>x\<rfloor>)
           + (frac y - 1) * vec_y (gradients s ! nat (\<lfloor>y\<rfloor> + 1) ! nat \<lfloor>x\<rfloor>))
          ((frac x - 1) * vec_x (gradients s ! nat (\<lfloor>y\<rfloor> + 1) ! nat (\<lfloor>x\<rfloor> + 1))
           + (frac y - 1) * vec_y (gradients s ! nat (\<lfloor>y\<rfloor> + 1) ! nat (\<lfloor>x\<rfloor> + 1)))))"
proof -
  note d = dot_prod_grid_ok [OF assms(1)]
  from assms(2) have r: "0 \<le> \<lfloor>x\<rfloor>" "\<lfloor>x\<rfloor> < int n" "0 \<le> \<lfloor>x\<rfloor> + 1" "\<lfloor>x\<rfloor> + 1 < int n"
    "0 \<le> \<lfloor>y\<rfloor>" "\<lfloor>y\<rfloor> < int n" "0 \<le> \<lfloor>y\<rfloor> + 1" "\<lfloor>y\<rfloor> + 1 < int n"
    by (simp_all add: in_range_def)
  show ?thesis
    unfolding perlin_blend_def Let_def
      d [OF r(1,2) r(5,6)] d [OF r(3,4) r(5,6)] d [OF r(1,2) r(7,8)] d [OF r(3,4) r(7,8)]
    by (simp add: frac_def algebra_simps)
qed

lemma grid_ok_unit:
  assumes "grid_ok n g" and "0 \<le> i" and "i < int n" and "0 \<le> j" and "j < int n"
  shows "unit_vec (g ! nat j ! nat i)"
proof -
  have "nat j < length g" using assms by (simp add: grid_ok_def)
  then have "g ! nat j \<in> set g" by simp
  with assms(1) have "length (g ! nat j) = n" "\<forall>v \<in> set (g ! nat j). unit_vec v"
    unfolding grid_ok_def by blast+
  moreover have "nat i < n" using assms(2,3) by simp
  ultimately show ?thesis by simp
qed

text \<open>
  Claim C4: for a gradient grid of \<open>n\<close> by \<open>n\<close> unit vectors and a coordinate whose four
  surrounding lattice points are indices of the grid, \<open>perlin_get\<close> returns; the blend of
  the four corner dot products that it computes lies in \<open>[-1, 1]\<close>, and the value it
  returns, \<open>(blend + 1) / 2\<close>, lies in \<open>[0, 1]\<close>.
\<close>

theorem perlin_get_range:
  assumes "grid_ok n (gradients s)" and "in_range n x y"
  shows "\<exists>b. perlin_blend s x y = Inr b \<and> - 1 \<le> b \<and> b \<le> 1
           \<and> perlin_get s x y = Inr ((b + 1) / 2)
           \<and> 0 \<le> (b + 1) / 2 \<and> (b + 1) / 2 \<le> 1"
proof -
  from assms(2) have r: "0 \<le> \<lfloor>x\<rfloor>" "\<lfloor>x\<rfloor> < int n" "0 \<le> \<lfloor>x\<rfloor> + 1" "\<lfloor>x\<rfloor> + 1 < int n"
    "0 \<le> \<lfloor>y\<rfloor>" "\<lfloor>y\<rfloor> < int n" "0 \<le> \<lfloor>y\<rfloor> + 1" "\<lfloor>y\<rfloor> + 1 < int n"
    by (simp_all add: in_range_def)
  note u = grid_ok_unit [OF assms(1)]
  have fx: "0 \<le> frac x" "frac x \<le> 1" and fy: "0 \<le> frac y" "frac y \<le> 1"
    using frac_lt_1 [of x] frac_lt_1 [of y] by simp_all
  note bound = blend_bound [OF fx fy u [OF r(1,2) r(5,6)] u [OF r(3,4) r(5,6)]
      u [OF r(1,2) r(7,8)] u [OF r(3,4) r(7,8)]]
  obtain b where b: "perlin_blend s x y = Inr b" "\<bar>b\<bar> \<le> 1"
    using perlin_blend_in_range [OF assms] bound by blast
  from b(1) have "perlin_get s x y = Inr ((b + 1) / 2)"
    by (simp add: perlin_get_def)
  moreover from b(2) have "- 1 \<le> b" "b \<le> 1" by simp_all
  ultimately show ?thesis using b(1) by simp
qed

theorem perlin_get_range_witness:
  "\<exists>b. perlin_blend turned_state (1 / 2) (1 / 2) = Inr b \<and> - 1 \<le> b \<and> b \<le> 1
      \<and> perlin_get turned_state (1 / 2) (1 / 2) = Inr ((b + 1) / 2)
      \<and> 0 \<le> (b + 1) / 2 \<and> (b + 1) / 2 \<le> 1"
proof -
  have "grid_ok 2 (gradients turned_state)"
    by (simp add: grid_ok_def unit_vec_def turned_state_def)
  moreover have "in_range 2 (1 / 2) (1 / 2)"
    by (simp add: in_range_def)
  ultimately show ?thesis
    by (rule perlin_get_range)
qed

section \<open>Same seed, same map\<close>

lemma repeatM_rel:
  assumes step: "\<And>s t. S s t \<Longrightarrow> rel_sum (=) (rel_prod (=) S) (f s) (f t)"
    and "S s t"
  shows "rel_sum (=) (rel_prod (=) S) (repeatM n f s) (repeatM n f t)"
  using \<open>S s t\<close>
proof (induction n arbitrary: s t)
  case 0
  then show ?case by simp
next
  case (Suc n)
  show ?case
  proof (cases "f s")
    case (Inl e)
    with step [OF Suc.prems] show ?thesis by (cases "f t") auto
  next
    case (Inr p)
    with step [OF Suc.prems] obtain a s' t' where
      st: "f s = Inr (a, s')" "f t = Inr (a, t')" "S s' t'"
      by (cases "f t"; cases p) auto
    from Suc.IH [OF st(3)] st(1,2) show ?thesis
      by (cases "repeatM n f s'"; cases "repeatM n f t'") auto
  qed
qed

lemma static_cell_rel:
  assumes "same_rng s t"
  shows "rel_sum (=) (rel_prod (=) same_rng)
           (case seeded_random R s of Inl e \<Rightarrow> Inl e | Inr (v, s') \<Rightarrow> Inr (Num v, s'))
           (case seeded_random R t of Inl e \<Rightarrow> Inl e | Inr (v, t') \<Rightarrow> Inr (Num v, t'))"
  using assms
  by (auto simp: seeded_random_def same_rng_def split: option.splits prod.splits)

lemma generate_static_noise_rel:
  assumes "same_rng s t"
  shows "rel_sum (=) (rel_prod (=) same_rng)
           (generate_static_noise R s width height) (generate_static_noise R t width height)"
proof -
  let ?cell = "\<lambda>s'. case seeded_random R s' of
                     Inl e \<Rightarrow> Inl e | Inr (v, s'') \<Rightarrow> Inr (Num v, s'')"
  have row: "rel_sum (=) (rel_prod (=) same_rng)
               (repeatM width ?cell a) (repeatM width ?cell b)" if "same_rng a b" for a b
    using static_cell_rel that by (rule repeatM_rel [where S = same_rng])
  show ?thesis
    unfolding generate_static_noise_def
    using row assms by (rule repeatM_rel [where S = same_rng])
qed

lemma rel_sum_fst_eq:
  assumes "rel_sum (=) (rel_prod (=) S) a b"
  shows "map_sum id fst a = map_sum id fst b"
  using assms by (auto elim!: rel_sum.cases)

lemma gradient_branch_frame:
  assumes "currentRng s = currentRng t"
  shows "gradient_branch R s scale generate = gradient_branch R t scale generate"
proof -
  have "s\<lparr>nodes := k, gradients := []\<rparr> = t\<lparr>nodes := k, gradients := []\<rparr>" for k
    using assms by (cases s; cases t) simp
  then show ?thesis
    by (simp add: gradient_branch_def initialize_gradients_def)
qed

text \<open>
  Claim C5: whatever the namespace held before (\<open>nodes\<close>, \<open>gradients\<close>, an earlier
  generator), two calls of \<open>createNoiseMap\<close> with the same kind, width, height and scale,
  each made right after \<open>setSeed\<close> with a generator freshly created from the same seed,
  end alike: both raise, or both return the same map, cell for cell.
\<close>

theorem createNoiseMap_same_seed_same_field:
  "map_sum id fst
     (createNoiseMap R (setSeed s (Some (new_rng R seed))) noiseType width height scale)
   = map_sum id fst
     (createNoiseMap R (setSeed t (Some (new_rng R seed))) noiseType width height scale)"
proof -
  let ?s = "setSeed s (Some (new_rng R seed))"
  let ?t = "setSeed t (Some (new_rng R seed))"
  have e: "ensure_rng R ?s = ?s" "ensure_rng R ?t = ?t"
    by (simp_all add: ensure_rng_def setSeed_def)
  have g: "gradient_branch R ?s scale generate = gradient_branch R ?t scale generate"
    for generate
    by (rule gradient_branch_frame) (simp add: setSeed_def)
  have "same_rng ?s ?t" by (simp add: same_rng_def setSeed_def)
  then have st: "map_sum id fst (generate_static_noise R ?s width height)
               = map_sum id fst (generate_static_noise R ?t width height)"
    by (rule rel_sum_fst_eq [OF generate_static_noise_rel])
  show ?thesis
    unfolding createNoiseMap_def e Let_def using st by (simp add: g)
qed

theorem createNoiseMap_same_seed_same_field_witness:
  "map_sum id fst
     (createNoiseMap zero_rng (setSeed fresh_state (Some (new_rng zero_rng 7))) Static 2 1 None)
   = map_sum id fst
     (createNoiseMap zero_rng (setSeed turned_state (Some (new_rng zero_rng 7))) Static 2 1 None)"
  by (rule createNoiseMap_same_seed_same_field)

section \<open>One layer against the Perlin map\<close>

lemma zero_rng_repeat_vec:
  assumes "currentRng s = Some r"
  shows "repeatM n (random_unit_vector zero_rng) s
           = Inr (replicate n \<lparr>vec_x = 1, vec_y = 0\<rparr>, s\<lparr>currentRng := Some (r + n)\<rparr>)"
  using assms
proof (induction n arbitrary: s r)
  case 0
  then show ?case by simp
next
  case (Suc n)
  have "random_unit_vector zero_rng s
          = Inr (\<lparr>vec_x = 1, vec_y = 0\<rparr>, s\<lparr>currentRng := Some (Suc r)\<rparr>)"
    using Suc.prems by (simp add: random_unit_vector_def seeded_random_def zero_rng_def)
  moreover have "repeatM n (random_unit_vector zero_rng) (s\<lparr>currentRng := Some (Suc r)\<rparr>)
          = Inr (replicate n \<lparr>vec_x = 1, vec_y = 0\<rparr>,
                 s\<lparr>currentRng := Some (Suc r), currentRng := Some (Suc r + n)\<rparr>)"
    by (rule Suc.IH) simp
  ultimately show ?case by simp
qed

lemma zero_rng_repeat_rows:
  assumes "currentRng s = Some r"
  shows "repeatM m (repeatM n (random_unit_vector zero_rng)) s
           = Inr (replicate m (replicate n \<lparr>vec_x = 1, vec_y = 0\<rparr>),
                  s\<lparr>currentRng := Some (r + m * n)\<rparr>)"
  using assms
proof (induction m arbitrary: s r)
  case 0
  then show ?case by simp
next
  case (Suc m)
  have "repeatM m (repeatM n (random_unit_vector zero_rng)) (s\<lparr>currentRng := Some (r + n)\<rparr>)
          = Inr (replicate m (replicate n \<lparr>vec_x = 1, vec_y = 0\<rparr>),
                 s\<lparr>currentRng := Some (r + n), currentRng := Some (r + n + m * n)\<rparr>)"
    by (rule Suc.IH) simp
  then show ?case
    using zero_rng_repeat_vec [OF Suc.prems, of n] by (simp add: add.assoc)
qed

lemma zero_rng_gradients:
  assumes "currentRng s = Some r"
  shows "initialize_gradients zero_rng s
           = Inr (s\<lparr>gradients := replicate (nodes s) (replicate (nodes s) \<lparr>vec_x = 1, vec_y = 0\<rparr>),
                    currentRng := Some (r + nodes s * nodes s)\<rparr>)"
proof -
  have "currentRng (s\<lparr>gradients := []\<rparr>) = Some r" using assms by simp
  from zero_rng_repeat_rows [OF this, of "nodes s" "nodes s"] show ?thesis
    by (simp add: initialize_gradients_def)
qed

lemma dot_prod_const_grid:
  assumes "gradients s = replicate n (replicate n \<lparr>vec_x = 1, vec_y = 0\<rparr>)"
    and "0 \<le> vx" "vx < int n" "0 \<le> vy" "vy < int n"
  shows "dot_prod_grid s x y vx vy = Inr (x - of_int vx)"
proof -
  have "nat vx < n" "nat vy < n" using assms(2-5) by simp_all
  then show ?thesis
    using assms by (simp add: dot_prod_grid_def index_def)
qed

lemma perlin_get_const_grid:
  assumes "gradients s = replicate n (replicate n \<lparr>vec_x = 1, vec_y = 0\<rparr>)"
    and "0 \<le> \<lfloor>x\<rfloor>" "\<lfloor>x\<rfloor> + 1 < int n" "0 \<le> \<lfloor>y\<rfloor>" "\<lfloor>y\<rfloor> + 1 < int n"
  shows "perlin_get s x y = Inr ((frac x - smootherstep (frac x) + 1) / 2)"
proof -
  note d = dot_prod_const_grid [OF assms(1)]
  have "dot_prod_grid s x y \<lfloor>x\<rfloor> \<lfloor>y\<rfloor> = Inr (x - of_int \<lfloor>x\<rfloor>)"
    "dot_prod_grid s x y (\<lfloor>x\<rfloor> + 1) \<lfloor>y\<rfloor> = Inr (x - of_int (\<lfloor>x\<rfloor> + 1))"
    "dot_prod_grid s x y \<lfloor>x\<rfloor> (\<lfloor>y\<rfloor> + 1) = Inr (x - of_int \<lfloor>x\<rfloor>)"
    "dot_prod_grid s x y (\<lfloor>x\<rfloor> + 1) (\<lfloor>y\<rfloor> + 1) = Inr (x - of_int (\<lfloor>x\<rfloor> + 1))"
    using assms(2-5) by (simp_all add: d)
  then show ?thesis
    by (simp add: perlin_get_def perlin_blend_def Let_def interp_def frac_def algebra_simps)
qed

lemma createLayeredNoiseMap_one_layer:
  "createLayeredNoiseMap R s width height 1 scale persistence =
     (case layer_step R width height (or_default_real persistence (1 / 2)) 0
             ((ensure_rng R s)\<lparr>nodes := or_default scale 4\<rparr>,
              replicate height (replicate width 0), 1, 0) of
        Inl e \<Rightarrow> Inl e
      | Inr (s', noiseMap, amplitude, totalAmplitude) \<Rightarrow>
          Inr (map (map (\<lambda>v. js_div (Num v) (Num totalAmplitude))) noiseMap, s'))"
  by (simp add: createLayeredNoiseMap_def Let_def split: sum.splits)

lemma zero_rng_first_layer:
  "initialize_gradients zero_rng ((ensure_rng zero_rng fresh_state)\<lparr>nodes := n\<rparr>)
     = Inr \<lparr>nodes = n, gradients = replicate n (replicate n \<lparr>vec_x = 1, vec_y = 0\<rparr>),
            currentRng = Some (n * n)\<rparr>"
proof -
  have "currentRng ((ensure_rng zero_rng fresh_state)\<lparr>nodes := n\<rparr>) = Some 0"
    by (simp add: ensure_rng_def fresh_state_def)
  from zero_rng_gradients [OF this] show ?thesis
    by (simp add: ensure_rng_def fresh_state_def)
qed

text \<open>
  The layer samples pixel \<open>x\<close> at \<open>x / width * (nodes * 2 ^ i)\<close>, where the four
  generators of \<open>createNoiseMap\<close> sample it at \<open>x / width * (nodes - 1)\<close>.  With a 4 by 4
  grid of gradients \<open>(1, 0)\<close> and a map 3 wide and 1 high, the first layer samples the row
  at 0, 4/3 and 8/3, the Perlin map at 0, 1 and 2, and two of the three cells differ.
\<close>

lemma single_layer_differs_inside_grid:
  "map_sum id fst (createLayeredNoiseMap zero_rng fresh_state 3 1 1 (Some 4) None)
     = Inr [[Num (1 / 2), Num (91 / 162), Num (71 / 162)]]
   \<and> map_sum id fst (createNoiseMap zero_rng fresh_state Perlin 3 1 (Some 4))
     = Inr [[Num (1 / 2), Num (1 / 2), Num (1 / 2)]]"
proof -
  define s' :: "nat noise_state" where
    "s' = \<lparr>nodes = 4, gradients = replicate 4 (replicate 4 \<lparr>vec_x = 1, vec_y = 0\<rparr>),
            currentRng = Some (4 * 4)\<rparr>"
  have ig: "initialize_gradients zero_rng ((ensure_rng zero_rng fresh_state)\<lparr>nodes := 4\<rparr>)
              = Inr s'"
    unfolding s'_def by (rule zero_rng_first_layer)
  have g: "gradients s' = replicate 4 (replicate 4 \<lparr>vec_x = 1, vec_y = 0\<rparr>)" "nodes s' = 4"
    by (simp_all add: s'_def)
  have p0: "perlin_get s' 0 0 = Inr (1 / 2)"
    using perlin_get_const_grid [OF g(1), of 0 0] by (simp add: smootherstep_def)
  have p1: "perlin_get s' (4 / 3) 0 = Inr (91 / 162)"
    using perlin_get_const_grid [OF g(1), of "4 / 3" 0]
    by (simp add: smootherstep_def frac_def power_divide)
  have p2: "perlin_get s' (8 / 3) 0 = Inr (71 / 162)"
    using perlin_get_const_grid [OF g(1), of "8 / 3" 0]
    by (simp add: smootherstep_def frac_def power_divide)
  have q1: "perlin_get s' 1 0 = Inr (1 / 2)"
    using perlin_get_const_grid [OF g(1), of 1 0] by (simp add: smootherstep_def)
  have q2: "perlin_get s' 2 0 = Inr (1 / 2)"
    using perlin_get_const_grid [OF g(1), of 2 0] by (simp add: smootherstep_def frac_def)
  have u3: "[0..<3] = [0, 1, 2]" by (simp add: upt_rec)
  have r3: "replicate 3 (0::real) = [0, 0, 0]" by (simp add: numeral_3_eq_3)
  have "layer_step zero_rng 3 1 (or_default_real None (1 / 2)) 0
          ((ensure_rng zero_rng fresh_state)\<lparr>nodes := or_default (Some 4) 4\<rparr>,
           replicate 1 (replicate 3 0), 1, 0)
        = Inr (s', [[1 / 2, 91 / 162, 71 / 162]], 1 / 2, 1)"
    by (simp add: layer_step_def or_default_def or_default_real_def ig g u3 r3 p0 p1 p2)
  then have layered: "map_sum id fst (createLayeredNoiseMap zero_rng fresh_state 3 1 1 (Some 4) None)
     = Inr [[Num (1 / 2), Num (91 / 162), Num (71 / 162)]]"
    by (simp only: createLayeredNoiseMap_one_layer) (simp add: js_div_def)
  have "generate_perlin_noise s' 3 1 = Inr [[Num (1 / 2), Num (1 / 2), Num (1 / 2)]]"
    by (simp add: generate_perlin_noise_def sample_coord_def g u3 p0 q1 q2)
  then have "map_sum id fst (createNoiseMap zero_rng fresh_state Perlin 3 1 (Some 4))
     = Inr [[Num (1 / 2), Num (1 / 2), Num (1 / 2)]]"
    by (simp add: createNoiseMap_def gradient_branch_def or_default_def ig)
  with layered show ?thesis by simp
qed

text \<open>
  Where the map is as wide as the grid, the last column of a layer is sampled at
  \<open>nodes - 1\<close> or beyond, and the read of the lattice point to its right raises.  The
  smallest case: 2 wide, 1 high, scale 2; the second pixel is sampled at 1, and
  \<open>gradients[0][2]\<close> is \<open>undefined\<close>.
\<close>

lemma single_layer_raises:
  "map_sum id fst (createLayeredNoiseMap zero_rng fresh_state 2 1 1 (Some 2) None)
     = Inl TypeError"
proof -
  define s' :: "nat noise_state" where
    "s' = \<lparr>nodes = 2, gradients = replicate 2 (replicate 2 \<lparr>vec_x = 1, vec_y = 0\<rparr>),
            currentRng = Some (2 * 2)\<rparr>"
  have ig: "initialize_gradients zero_rng ((ensure_rng zero_rng fresh_state)\<lparr>nodes := 2\<rparr>)
              = Inr s'"
    unfolding s'_def by (rule zero_rng_first_layer)
  have g: "gradients s' = replicate 2 (replicate 2 \<lparr>vec_x = 1, vec_y = 0\<rparr>)" "nodes s' = 2"
    by (simp_all add: s'_def)
  have p0: "perlin_get s' 0 0 = Inr (1 / 2)"
    using perlin_get_const_grid [OF g(1), of 0 0] by (simp add: smootherstep_def)
  have p1: "perlin_get s' 1 0 = Inl TypeError"
    by (simp add: perlin_get_def perlin_blend_def dot_prod_grid_def index_def g)
  have u2: "[0..<2] = [0, 1]" by (simp add: upt_rec)
  have "layer_step zero_rng 2 1 (or_default_real None (1 / 2)) 0
          ((ensure_rng zero_rng fresh_state)\<lparr>nodes := or_default (Some 2) 4\<rparr>,
           replicate 1 (replicate 2 0), 1, 0)
        = Inl TypeError"
    by (simp add: layer_step_def or_default_def or_default_real_def ig g u2 p0 p1)
  then show ?thesis
    by (simp only: createLayeredNoiseMap_one_layer) simp
qed

lemma error_unique: "(e::error) = TypeError"
  by (cases e)

lemma traverse_Inl:
  assumes "a \<in> set xs" and "f a = Inl e"
  shows "traverse f xs = Inl TypeError"
  using assms
proof (induction xs)
  case Nil
  then show ?case by simp
next
  case (Cons b xs)
  show ?case
  proof (cases "f b")
    case (Inl e')
    then show ?thesis by (simp add: error_unique [of e'])
  next
    case (Inr v)
    with Cons have "traverse f xs = Inl TypeError" by auto
    with Inr show ?thesis by simp
  qed
qed

lemma dot_prod_grid_outside:
  assumes "grid_ok n (gradients s)" and "int n \<le> vx \<or> int n \<le> vy"
  shows "dot_prod_grid s x y vx vy = Inl TypeError"
proof (cases "0 \<le> vy \<and> vy < int n")
  case True
  then have "nat vy < n" by linarith
  then have "nat vy < length (gradients s)" using assms(1) by (simp add: grid_ok_def)
  then have "gradients s ! nat vy \<in> set (gradients s)" by simp
  with assms(1) have "length (gradients s ! nat vy) = n" unfolding grid_ok_def by blast
  moreover from True assms(2) have "int n \<le> vx" by simp
  ultimately show ?thesis
    using True assms(1) by (simp add: dot_prod_grid_def index_def grid_ok_def)
next
  case False
  then show ?thesis
    using assms(1) by (auto simp: dot_prod_grid_def index_def grid_ok_def)
qed

lemma perlin_get_outside:
  assumes "grid_ok n (gradients s)" and "int n \<le> \<lfloor>x\<rfloor> + 1 \<or> int n \<le> \<lfloor>y\<rfloor> + 1"
  shows "perlin_get s x y = Inl TypeError"
proof -
  have "dot_prod_grid s x y (\<lfloor>x\<rfloor> + 1) (\<lfloor>y\<rfloor> + 1) = Inl TypeError"
    using assms by (intro dot_prod_grid_outside [OF assms(1)]) simp
  then have "perlin_blend s x y = Inl TypeError"
    by (simp add: perlin_blend_def Let_def error_unique split: sum.splits)
  then show ?thesis by (simp add: perlin_get_def)
qed

lemma last_pixel_at_last_node:
  assumes "1 \<le> n" and "k \<le> n"
  shows "int k \<le> \<lfloor>real (n - 1) / real n * (real k * 2 ^ 0)\<rfloor> + 1"
proof -
  have n0: "0 < real n" using assms(1) by simp
  have "(real k - 1) * real n \<le> (real n - 1) * real k"
    using assms(2) by (simp add: algebra_simps)
  then have "real k - 1 \<le> (real n - 1) * real k / real n"
    using n0 by (simp add: pos_le_divide_eq)
  then have "real_of_int (int k - 1) \<le> real (n - 1) / real n * (real k * 2 ^ 0)"
    using assms(1) by (simp add: of_nat_diff)
  then have "int k - 1 \<le> \<lfloor>real (n - 1) / real n * (real k * 2 ^ 0)\<rfloor>"
    by (simp only: le_floor_iff)
  then show ?thesis by simp
qed

text \<open>
  Claim C2: a single layer is plain Perlin synthesis at the base scale.  The code does not
  meet it.  For every width and height of at least 1 and every scale of at least 2 that
  is at most the width or at most the height (160 by 120 at scale 4, the defaults of the
  two blocks, among them), \<open>createNoiseMap\<close> with kind Perlin returns a map of \<open>height\<close> rows of
  \<open>width\<close> cells, and \<open>createLayeredNoiseMap\<close> with one layer, started from the same state,
  raises: its last column or its last row is sampled at \<open>nodes - 1\<close> or beyond, and the
  lattice point after it is not in the grid.
\<close>

theorem single_layer_raises_where_perlin_returns:
  assumes "1 \<le> width" and "1 \<le> height" and "2 \<le> scale"
    and "scale \<le> width \<or> scale \<le> height"
  shows "createLayeredNoiseMap R s width height 1 (Some scale) persistence = Inl TypeError
         \<and> (\<exists>g s'. createNoiseMap R s Perlin width height (Some scale) = Inr (g, s')
                \<and> length g = height \<and> (\<forall>row \<in> set g. length row = width))"
proof -
  let ?s1 = "(ensure_rng R s)\<lparr>nodes := or_default (Some scale) 4\<rparr>"
  have n: "nodes ?s1 = scale" using assms(3) by (simp add: or_default_def)
  have "currentRng ?s1 \<noteq> None" using ensure_rng_Some [of R s] by simp
  from initialize_gradients_ok [OF this, of R] n obtain s' where
    s': "initialize_gradients R ?s1 = Inr s'" "nodes s' = scale" "grid_ok scale (gradients s')"
    by auto
  have n2: "2 \<le> nodes s'" and grid: "grid_ok (nodes s') (gradients s')"
    using s'(2,3) assms(3) by simp_all
  \<comment> \<open>the Perlin map\<close>
  from generate_perlin_noise_cells [OF grid n2, of width height] obtain g where
    g: "generate_perlin_noise s' width height = Inr g" "length g = height"
      "\<forall>row \<in> set g. length row = width"
    by blast
  have perlin: "createNoiseMap R s Perlin width height (Some scale) = Inr (g, s')"
    by (simp add: createNoiseMap_def gradient_branch_def s'(1) g(1))
  \<comment> \<open>the single layer\<close>
  let ?c = "\<lambda>y x. perlin_get s' (real x / real width * (real (nodes s') * 2 ^ 0))
                              (real y / real height * (real (nodes s') * 2 ^ 0))"
  have "\<exists>y x. y < height \<and> x < width \<and> ?c y x = Inl TypeError"
    using assms(4)
  proof
    assume "scale \<le> width"
    from last_pixel_at_last_node [OF assms(1) this]
    have "?c 0 (width - 1) = Inl TypeError"
      by (intro perlin_get_outside [OF s'(3)]) (simp add: s'(2))
    with assms(1,2) show ?thesis
      by (intro exI [of _ 0] exI [of _ "width - 1"]) simp
  next
    assume "scale \<le> height"
    from last_pixel_at_last_node [OF assms(2) this]
    have "?c (height - 1) 0 = Inl TypeError"
      by (intro perlin_get_outside [OF s'(3)]) (simp add: s'(2))
    with assms(1,2) show ?thesis
      by (intro exI [of _ "height - 1"] exI [of _ 0]) simp
  qed
  then obtain y x where yx: "y < height" "x < width" "?c y x = Inl TypeError"
    by blast
  have "traverse (?c y) [0..<width] = Inl TypeError"
    using yx(2,3) by (intro traverse_Inl [of x]) simp_all
  then have "traverse (\<lambda>y. traverse (?c y) [0..<width]) [0..<height] = Inl TypeError"
    using yx(1) by (intro traverse_Inl [of y]) simp_all
  then have "layer_step R width height (or_default_real persistence (1 / 2)) 0
               (?s1, replicate height (replicate width 0), 1, 0) = Inl TypeError"
    unfolding layer_step_def by (simp only: prod.case s'(1) sum.case Let_def)
  then have "createLayeredNoiseMap R s width height 1 (Some scale) persistence = Inl TypeError"
    by (simp only: createLayeredNoiseMap_one_layer sum.case)
  with perlin g(2,3) show ?thesis by blast
qed

theorem single_layer_raises_where_perlin_returns_witness:
  "createLayeredNoiseMap zero_rng fresh_state 160 120 1 (Some 4) None = Inl TypeError
   \<and> (\<exists>g s'. createNoiseMap zero_rng fresh_state Perlin 160 120 (Some 4) = Inr (g, s')
          \<and> length g = 120)"
  using single_layer_raises_where_perlin_returns [of 160 120 4 zero_rng fresh_state None]
  by auto

end
